theory Spec2Isabelle
  imports Main "HOL-Library.Char_ord" "HOL-Library.List_Lexorder" "HOL-Library.Multiset"
    "HOL-Library.Sublist"
begin

section \<open>Names, paths and the date-prefix marker\<close>

text \<open>
  Python strings are modelled as \<open>string\<close>, a list of 8-bit characters read as code
  points below 256. In that range the regular expression class \<open>\d\<close> is exactly the ten
  ASCII digits.
\<close>

definition is_digit :: "char \<Rightarrow> bool" where
  "is_digit c = (c \<in> set ''0123456789'')"

text \<open>
  \<open>DATE_PREFIX_RE = re.compile(r'^\d{8}_')\<close> and
  \<open>_has_any_date_prefix(filename) = bool(DATE_PREFIX_RE.match(filename))\<close>
  (the same in rename_files_gui_optimized8.6.py and AutoRenamer_v2.0.py).
\<close>

definition has_any_date_prefix :: "string \<Rightarrow> bool" where
  "has_any_date_prefix filename =
     (9 \<le> length filename \<and> list_all is_digit (take 8 filename) \<and> filename ! 8 = CHR ''_'')"

text \<open>
  A \<open>pathlib.Path\<close> of a file: the directory it lies in (\<open>p.parent\<close>) and its last
  component (\<open>p.name\<close>). \<open>str(p)\<close> joins them with the separator and
  \<open>p.with_name(n)\<close> replaces the last component.
\<close>

datatype path = Path (parent_of: string) (name_of: string)

definition str_path :: "path \<Rightarrow> string" where
  "str_path p = parent_of p @ ''/'' @ name_of p"

definition with_name :: "path \<Rightarrow> string \<Rightarrow> path" where
  "with_name p n = Path (parent_of p) n"

section \<open>The conflict resolver\<close>

text \<open>
  \<open>str.rfind\<close> for a single character: the highest index holding it, or \<open>-1\<close>.
\<close>

definition rfind :: "char \<Rightarrow> string \<Rightarrow> int" where
  "rfind c s =
     (case List.find (\<lambda>i. s ! i = c) (rev [0..<length s]) of
        None \<Rightarrow> - 1
      | Some i \<Rightarrow> int i)"

text \<open>
  The loop of \<open>genericpath._splitext\<close> that skips the leading dots of the last
  component: it answers whether the slice \<open>p[sepIndex+1:dotIndex]\<close> holds a character
  other than the dot.
\<close>

fun has_non_dot :: "string \<Rightarrow> bool" where
  "has_non_dot [] = False"
| "has_non_dot (c # cs) = (if c \<noteq> CHR ''.'' then True else has_non_dot cs)"

text \<open>
  \<open>os.path.splitext\<close> (posixpath: separator \<open>/\<close>, no alternative separator). A file
  name holds no separator on either platform, and on such names ntpath's version gives
  the same split.
\<close>

definition splitext :: "string \<Rightarrow> string \<times> string" where
  "splitext p =
     (let sepIndex = rfind CHR ''/'' p;
          dotIndex = rfind CHR ''.'' p
      in if dotIndex > sepIndex \<and>
            has_non_dot (take (nat dotIndex - nat (sepIndex + 1)) (drop (nat (sepIndex + 1)) p))
         then (take (nat dotIndex) p, drop (nat dotIndex) p)
         else (p, []))"

text \<open>Decimal digits of a natural number, as \<open>str(i)\<close> gives them.\<close>

definition digit_char :: "nat \<Rightarrow> char" where
  "digit_char d = ''0123456789'' ! (d mod 10)"

fun str_of_nat :: "nat \<Rightarrow> string" where
  "str_of_nat n =
     (if n < 10 then [digit_char n] else str_of_nat (n div 10) @ [digit_char (n mod 10)])"

text \<open>The format \<open>{i:03d}\<close>: the decimal digits, padded with zeros on the left up to width 3.\<close>

definition fmt03 :: "nat \<Rightarrow> string" where
  "fmt03 i = replicate (3 - length (str_of_nat i)) CHR ''0'' @ str_of_nat i"

text \<open>The candidate \<open>f"{stem}_{i:03d}{suffix}"\<close> (\<open>sfx\<close> is the source's \<open>suffix\<close>).\<close>

definition cand :: "string \<Rightarrow> nat \<Rightarrow> string \<Rightarrow> string" where
  "cand stem i sfx = stem @ ''_'' @ fmt03 i @ sfx"

text \<open>
  For comparison, the suffix as the specification words it: the number written with
  exactly three decimal digits.
\<close>

abbreviation (input) three_digits :: "nat \<Rightarrow> string" where
  "three_digits j \<equiv>
     [''0123456789'' ! (j div 100), ''0123456789'' ! (j div 10 mod 10),
      ''0123456789'' ! (j mod 10)]"

text \<open>
  The exceptions that matter: the resolver's \<open>RuntimeError\<close>, the three \<open>OSError\<close>
  subclasses a rename raises for a missing source, an existing target and a refused
  operation, \<open>OSError\<close> itself (a name that is too long, a time stamp that cannot be
  converted), and \<open>OtherError\<close> for what a library raises.
\<close>

datatype exn =
  RuntimeError | FileNotFoundError | FileExistsError | PermissionError | OSError | OtherError

text \<open>
  \<open>_resolve_conflict_auto_index\<close> of rename_files_gui_optimized8.6.py. The
  \<open>for i in range(1, max_tries + 1)\<close> loop returns at the first free candidate; falling
  out of the loop raises \<open>RuntimeError\<close>. Callers leave \<open>max_tries\<close> at its default 999.
\<close>

definition resolve_conflict_auto_index ::
  "string \<Rightarrow> string set \<Rightarrow> string set \<Rightarrow> nat \<Rightarrow> exn + (string \<times> nat)" where
  "resolve_conflict_auto_index base_name existing_names reserved_names max_tries =
     (if base_name \<notin> existing_names \<and> base_name \<notin> reserved_names then Inr (base_name, 0)
      else
        (case splitext base_name of (stem, sfx) \<Rightarrow>
           (case List.find
                   (\<lambda>i. cand stem i sfx \<notin> existing_names \<and>
                        cand stem i sfx \<notin> reserved_names)
                   [1..<max_tries + 1] of
              Some i \<Rightarrow> Inr (cand stem i sfx, i)
            | None \<Rightarrow> Inl RuntimeError)))"

text \<open>
  \<open>_resolve_conflict_auto_index\<close> of AutoRenamer_v2.0.py: the sets hold keys, and every
  membership test goes through \<open>key_func\<close>.
\<close>

definition resolve_conflict_auto_index_v2 ::
  "(string \<Rightarrow> string) \<Rightarrow> string \<Rightarrow> string set \<Rightarrow> string set \<Rightarrow> nat \<Rightarrow> exn + (string \<times> nat)" where
  "resolve_conflict_auto_index_v2 key_func base_name existing_keys reserved_keys max_tries =
     (if key_func base_name \<notin> existing_keys \<and> key_func base_name \<notin> reserved_keys
      then Inr (base_name, 0)
      else
        (case splitext base_name of (stem, sfx) \<Rightarrow>
           (case List.find
                   (\<lambda>i. key_func (cand stem i sfx) \<notin> existing_keys \<and>
                        key_func (cand stem i sfx) \<notin> reserved_keys)
                   [1..<max_tries + 1] of
              Some i \<Rightarrow> Inr (cand stem i sfx, i)
            | None \<Rightarrow> Inl RuntimeError)))"


section \<open>The file system and the operating system\<close>

text \<open>
  A file carries an identity (standing for its content), the dates its modification and
  creation times format to under \<open>datetime.fromtimestamp(...).strftime('%Y%m%d')\<close>
  (\<open>None\<close> when that conversion raises, as it does for a time stamp out of the range
  of the platform), and whether the file is locked: held open by another process on
  Windows, or marked immutable, so that renaming it is refused. The file system maps
  the paths that exist to their files; directories other than as parents of files are
  not modelled.
\<close>

record finfo =
  ident :: nat
  mdate :: "string option"
  cdate :: "string option"
  locked :: bool

type_synonym fs = "path \<rightharpoonup> finfo"

text \<open>
  What the operating system adds to the file system: whether it is Windows
  (\<open>os.name == 'nt'\<close>), the directories in which the process may not create or remove
  entries (no write permission, a read-only volume), the directories whose listing
  raises, with the text of the exception, and the longest file name the file system
  takes.
\<close>

record host =
  windows :: bool
  denied_dirs :: "string set"
  listdir_fails :: "string \<Rightarrow> string option"
  name_max :: nat

definition exists_path :: "fs \<Rightarrow> path \<Rightarrow> bool" where
  "exists_path fsys p = (fsys p \<noteq> None)"

text \<open>
  \<open>os.listdir(parent)\<close>: the names of the entries, or the text of the exception it
  raises.
\<close>

definition os_listdir :: "'a host_scheme \<Rightarrow> fs \<Rightarrow> string \<Rightarrow> string + string set" where
  "os_listdir env fsys d =
     (case listdir_fails env d of
        Some msg \<Rightarrow> Inl msg
      | None \<Rightarrow> Inr {n. fsys (Path d n) \<noteq> None})"

text \<open>
  The block both callers put around the listing:
  \<open>try: existing = set(os.listdir(parent))\<close>, \<open>except Exception: existing = set()\<close>.
\<close>

definition listdir_or_empty :: "'a host_scheme \<Rightarrow> fs \<Rightarrow> string \<Rightarrow> string set" where
  "listdir_or_empty env fsys d =
     (case os_listdir env fsys d of Inl msg \<Rightarrow> {} | Inr names \<Rightarrow> names)"

text \<open>
  \<open>datetime.fromtimestamp(p.stat().st_mtime).strftime('%Y%m%d')\<close>: \<open>stat\<close> raises
  when the path does not exist, the conversion raises when the time stamp cannot be
  converted.
\<close>

definition stat_mdate :: "fs \<Rightarrow> path \<Rightarrow> exn + string" where
  "stat_mdate fsys p =
     (case fsys p of
        None \<Rightarrow> Inl FileNotFoundError
      | Some f \<Rightarrow> (case mdate f of None \<Rightarrow> Inl OSError | Some d \<Rightarrow> Inr d))"

text \<open>\<open>datetime.fromtimestamp(os.path.getctime(p)).strftime('%Y%m%d')\<close>.\<close>

definition stat_cdate :: "fs \<Rightarrow> path \<Rightarrow> exn + string" where
  "stat_cdate fsys p =
     (case fsys p of
        None \<Rightarrow> Inl FileNotFoundError
      | Some f \<Rightarrow> (case cdate f of None \<Rightarrow> Inl OSError | Some d \<Rightarrow> Inr d))"

text \<open>
  \<open>Path.rename\<close> / \<open>os.rename\<close>. The source must exist. The operating system refuses
  the rename (\<open>PermissionError\<close>) when entries of the source's or the target's directory
  may not be changed or when the file is locked, and raises \<open>OSError\<close> when the target's
  name is too long. On POSIX an existing target file is replaced silently, on Windows
  \<open>FileExistsError\<close> is raised.
\<close>

definition os_rename :: "'a host_scheme \<Rightarrow> fs \<Rightarrow> path \<Rightarrow> path \<Rightarrow> exn + fs" where
  "os_rename env fsys src dst =
     (case fsys src of
        None \<Rightarrow> Inl FileNotFoundError
      | Some f \<Rightarrow>
          if parent_of src \<in> denied_dirs env \<or> parent_of dst \<in> denied_dirs env \<or> locked f
          then Inl PermissionError
          else if name_max env < length (name_of dst) then Inl OSError
          else if windows env \<and> fsys dst \<noteq> None then Inl FileExistsError
          else Inr ((fsys(src := None))(dst \<mapsto> f)))"

section \<open>The name filter\<close>

text \<open>
  The three tests of the filter step, on the values \<open>exts\<close>, \<open>inc\<close> and \<open>exc\<close>
  computed from the option strings. \<open>lower\<close> stands for \<open>str.lower\<close>.
  \<open>PurePath.suffix\<close> is the part of the name from its last dot on, unless that dot is
  the first or the last character.
\<close>

record filters =
  exts :: "string set"
  inc :: string
  exc :: string

definition path_suffix :: "path \<Rightarrow> string" where
  "path_suffix p =
     (let n = name_of p; i = rfind CHR ''.'' n
      in if 0 < i \<and> i < int (length n) - 1 then drop (nat i) n else [])"

definition filters_active :: "filters \<Rightarrow> bool" where
  "filters_active flt = (exts flt \<noteq> {} \<or> inc flt \<noteq> [] \<or> exc flt \<noteq> [])"

definition filtered_out_by :: "(string \<Rightarrow> string) \<Rightarrow> filters \<Rightarrow> path \<Rightarrow> bool" where
  "filtered_out_by lower flt p =
     (let name_lower = lower (name_of p) in
      if exts flt \<noteq> {} \<and> lower (path_suffix p) \<notin> exts flt then True
      else if inc flt \<noteq> [] \<and> \<not> sublist (inc flt) name_lower then True
      else if exc flt \<noteq> [] \<and> sublist (exc flt) name_lower then True
      else False)"

section \<open>The run of rename\_files\_gui\_optimized8.6.py\<close>

record rename_result =
  renamed :: nat
  skipped :: nat
  filtered :: nat
  conflicts :: nat
  errors :: nat
  total :: nat
  cancelled :: bool

definition RenameResult :: rename_result where
  "RenameResult = \<lparr>renamed = 0, skipped = 0, filtered = 0, conflicts = 0, errors = 0,
                    total = 0, cancelled = False\<rparr>"

text \<open>An operation record \<open>{'old': ..., 'new': ...}\<close>.\<close>

record op =
  old :: path
  new :: path

text \<open>
  What the loop of \<open>_worker_run\<close> changes: the counters, the operations recorded for
  undo, the two per-directory caches and the file system.
\<close>

record run_state =
  result :: rename_result
  ops :: "op list"
  existing_by_dir :: "string \<rightharpoonup> string set"
  reserved_by_dir :: "string \<rightharpoonup> string set"
  fsys :: fs

definition count_error :: "run_state \<Rightarrow> run_state" where
  "count_error st = st\<lparr>result := (result st)\<lparr>errors := errors (result st) + 1\<rparr>\<rparr>"

text \<open>
  The last three statements of the loop body: \<open>existing.discard(original_name)\<close>,
  \<open>existing.add(final_name)\<close>, \<open>reserved.add(final_name)\<close>, on the sets cached for
  the directory.
\<close>

definition simulate :: "string \<Rightarrow> string \<Rightarrow> string \<Rightarrow> run_state \<Rightarrow> run_state" where
  "simulate parent original_name final_name st =
     st\<lparr>existing_by_dir := (existing_by_dir st)
           (parent \<mapsto> insert final_name
              ((case existing_by_dir st parent of None \<Rightarrow> {} | Some s \<Rightarrow> s) - {original_name})),
        reserved_by_dir := (reserved_by_dir st)
           (parent \<mapsto> insert final_name
              (case reserved_by_dir st parent of None \<Rightarrow> {} | Some s \<Rightarrow> s))\<rparr>"

text \<open>
  The body of the loop for one file (the \<open>try\<close> block and its \<open>except\<close>, which counts
  an error and leaves in place what the block had already stored).
\<close>

definition run_item :: "'a host_scheme \<Rightarrow> bool \<Rightarrow> run_state \<Rightarrow> path \<Rightarrow> run_state" where
  "run_item env dry_run st file_path =
     (let original_name = name_of file_path in
      if has_any_date_prefix original_name
      then st\<lparr>result := (result st)\<lparr>skipped := skipped (result st) + 1\<rparr>\<rparr>
      else
        (case stat_mdate (fsys st) file_path of
           Inl e \<Rightarrow> count_error st
         | Inr date_prefix \<Rightarrow>
            (let new_name = date_prefix @ ''_'' @ original_name;
                 parent = parent_of file_path;
                 existing = (case existing_by_dir st parent of
                               None \<Rightarrow> listdir_or_empty env (fsys st) parent
                             | Some s \<Rightarrow> s);
                 reserved = (case reserved_by_dir st parent of None \<Rightarrow> {} | Some s \<Rightarrow> s);
                 st1 = st\<lparr>existing_by_dir := (existing_by_dir st)(parent \<mapsto> existing),
                          reserved_by_dir := (reserved_by_dir st)(parent \<mapsto> reserved)\<rparr>
             in case resolve_conflict_auto_index new_name existing reserved 999 of
                  Inl e \<Rightarrow> count_error st1
                | Inr (final_name, suffix_idx) \<Rightarrow>
                   (let final_path = with_name file_path final_name;
                        st2 = (if suffix_idx > 0
                               then st1\<lparr>result := (result st1)
                                          \<lparr>conflicts := conflicts (result st1) + 1\<rparr>\<rparr>
                               else st1)
                    in if dry_run
                       then simulate parent original_name final_name
                              (st2\<lparr>result := (result st2)
                                     \<lparr>renamed := renamed (result st2) + 1\<rparr>\<rparr>)
                       else
                         (case os_rename env (fsys st2) file_path final_path of
                            Inl e \<Rightarrow> count_error st2
                          | Inr fs' \<Rightarrow>
                              simulate parent original_name final_name
                                (st2\<lparr>fsys := fs',
                                     ops := ops st2 @ [\<lparr>old = file_path, new = final_path\<rparr>],
                                     result := (result st2)
                                       \<lparr>renamed := renamed (result st2) + 1\<rparr>\<rparr>))))))"

text \<open>
  \<open>for idx, file_path in enumerate(files, start=1)\<close>. The cancel event is polled once
  at the head of every iteration; \<open>cancel idx\<close> says whether it is set when item
  \<open>idx\<close> is reached.
\<close>

fun run_loop :: "'a host_scheme \<Rightarrow> bool \<Rightarrow> (nat \<Rightarrow> bool) \<Rightarrow> nat \<Rightarrow> run_state \<Rightarrow> path list \<Rightarrow> run_state" where
  "run_loop env dry_run cancel idx st [] = st"
| "run_loop env dry_run cancel idx st (file_path # files) =
     (if cancel idx then st\<lparr>result := (result st)\<lparr>cancelled := True\<rparr>\<rparr>
      else run_loop env dry_run cancel (idx + 1) (run_item env dry_run st file_path) files)"

definition init_state :: "fs \<Rightarrow> run_state" where
  "init_state fs0 = \<lparr>result = RenameResult, ops = [], existing_by_dir = Map.empty,
                     reserved_by_dir = Map.empty, fsys = fs0\<rparr>"

text \<open>
  \<open>_worker_run\<close> from the list \<open>files\<close> the enumeration produced (in the order the
  operating system yields the entries, or the single target file): the early returns
  on an empty list, the filter step, then the loop.
\<close>

definition worker_run ::
  "'a host_scheme \<Rightarrow> (string \<Rightarrow> string) \<Rightarrow> (nat \<Rightarrow> bool) \<Rightarrow> filters \<Rightarrow> bool \<Rightarrow> fs \<Rightarrow> path list
     \<Rightarrow> run_state" where
  "worker_run env lower cancel flt dry_run fs0 files =
     (if files = [] then init_state fs0
      else
        (let kept = (if filters_active flt
                     then filter (\<lambda>p. \<not> filtered_out_by lower flt p) files else files);
             st0 = (if filters_active flt
                    then (init_state fs0)\<lparr>result := RenameResult
                            \<lparr>filtered := length files - length kept\<rparr>\<rparr>
                    else init_state fs0)
         in if kept = [] then st0
            else run_loop env dry_run cancel 1
                   (st0\<lparr>result := (result st0)\<lparr>total := length kept\<rparr>\<rparr>) kept))"

section \<open>The undo engine and the history store\<close>

record undo_result =
  u_restored :: nat
  u_skipped :: nat
  u_errors :: nat
  u_total :: nat
  u_cancelled :: bool

definition UndoResult :: undo_result where
  "UndoResult = \<lparr>u_restored = 0, u_skipped = 0, u_errors = 0, u_total = 0,
                  u_cancelled = False\<rparr>"

text \<open>
  The body of the loop of \<open>_worker_undo\<close> for one operation (the same in both GUI
  versions; \<open>_safe_rename\<close> of AutoRenamer_v2.0.py is the rename of the platform).
\<close>

definition undo_item :: "'a host_scheme \<Rightarrow> undo_result \<times> fs \<Rightarrow> op \<Rightarrow> undo_result \<times> fs" where
  "undo_item env s operation =
     (case s of (res, fsa) \<Rightarrow>
        (let new_path = new operation; old_path = old operation in
         if \<not> exists_path fsa new_path
         then (res\<lparr>u_skipped := u_skipped res + 1\<rparr>, fsa)
         else if exists_path fsa old_path
         then (res\<lparr>u_skipped := u_skipped res + 1\<rparr>, fsa)
         else
           (case os_rename env fsa new_path old_path of
              Inl e \<Rightarrow> (res\<lparr>u_errors := u_errors res + 1\<rparr>, fsa)
            | Inr fs' \<Rightarrow> (res\<lparr>u_restored := u_restored res + 1\<rparr>, fs'))))"

text \<open>
  \<open>for idx, op in enumerate(reversed(ops), start=1)\<close>, given the reversed list; the
  cancel event is polled at the head of every iteration.
\<close>

fun undo_loop ::
  "'a host_scheme \<Rightarrow> (nat \<Rightarrow> bool) \<Rightarrow> nat \<Rightarrow> undo_result \<times> fs \<Rightarrow> op list
     \<Rightarrow> undo_result \<times> fs" where
  "undo_loop env cancel idx s [] = s"
| "undo_loop env cancel idx s (operation # rest) =
     (if cancel idx then (fst s\<lparr>u_cancelled := True\<rparr>, snd s)
      else undo_loop env cancel (idx + 1) (undo_item env s operation) rest)"

text \<open>
  A history entry: the keys \<open>id\<close>, \<open>status\<close>, \<open>ops\<close> and \<open>undo_summary\<close> of the
  stored dictionary (a missing \<open>id\<close> or \<open>status\<close> is \<open>None\<close>, a missing \<open>ops\<close> the
  empty list). Time stamps and the options snapshot are left out.
\<close>

record history_entry =
  h_id :: "string option"
  h_status :: "string option"
  h_ops :: "op list"
  h_undo_summary :: "undo_result option"

text \<open>\<open>_find_last_undoable\<close>: the scan from the last index down to 0.\<close>

definition find_last_undoable :: "history_entry list \<Rightarrow> (nat \<times> history_entry) option" where
  "find_last_undoable items =
     (case List.find (\<lambda>i. h_status (items ! i) = Some ''done'' \<and> h_ops (items ! i) \<noteq> [])
             (rev [0..<length items]) of
        None \<Rightarrow> None
      | Some i \<Rightarrow> Some (i, items ! i))"

text \<open>
  \<open>_save_history\<close> swallows every exception of the write: when the store cannot be
  written, what it holds stays as it was.
\<close>

definition save_history ::
  "bool \<Rightarrow> history_entry list \<Rightarrow> history_entry list \<Rightarrow> history_entry list" where
  "save_history writable items stored = (if writable then items else stored)"

text \<open>
  The loop of \<open>_mark_history_undone\<close>: the first entry carrying the id is marked, then
  the loop breaks. (AutoRenamer_v2.0.py updates the row of that \<open>entry_id\<close>, a unique
  column.)
\<close>

fun mark_history_undone ::
  "string \<Rightarrow> undo_result \<Rightarrow> history_entry list \<Rightarrow> history_entry list" where
  "mark_history_undone entry_id summary [] = []"
| "mark_history_undone entry_id summary (e # es) =
     (if h_id e = Some entry_id
      then e\<lparr>h_status := Some ''undone'', h_undo_summary := Some summary\<rparr> # es
      else e # mark_history_undone entry_id summary es)"



text \<open>
  \<open>_append_history_entry\<close> (at most \<open>_HISTORY_MAX_ENTRIES = 30\<close> entries are kept, the
  newest ones) and the \<open>finally\<close> block of \<open>_worker_run\<close>, which appends an entry with
  status \<open>done\<close> when the run was not a dry run and renamed something. \<open>new_id\<close> is the
  fresh \<open>uuid4().hex\<close>.
\<close>

definition append_history_entry ::
  "bool \<Rightarrow> history_entry \<Rightarrow> history_entry list \<Rightarrow> history_entry list" where
  "append_history_entry writable entry items =
     (let items' = items @ [entry]
      in save_history writable
           (if length items' > 30 then drop (length items' - 30) items' else items') items)"

definition persist_history ::
  "bool \<Rightarrow> bool \<Rightarrow> string \<Rightarrow> run_state \<Rightarrow> history_entry list \<Rightarrow> history_entry list" where
  "persist_history writable dry_run new_id st history =
     (if \<not> dry_run \<and> ops st \<noteq> []
      then append_history_entry writable
             \<lparr>h_id = Some new_id, h_status = Some ''done'', h_ops = ops st,
              h_undo_summary = None\<rparr> history
      else history)"

section \<open>Invariants of the run loop\<close>

text \<open>
  \<open>hide Y fsa\<close> is the file system \<open>fsa\<close> without the paths in \<open>Y\<close>. Undoing a rename
  that replaced a file leaves the target path empty; \<open>lost Y undo_order\<close> collects the
  paths left empty when the operations are undone in the given order.
\<close>

definition hide :: "path set \<Rightarrow> fs \<Rightarrow> fs" where
  "hide Y fsa = (\<lambda>p. if p \<in> Y then None else fsa p)"









section \<open>AutoRenamer\_v2.0.py: platform, scan order and date sources\<close>

text \<open>
  What the code takes from the platform and from libraries, besides the operating
  system (whose \<open>windows\<close> is \<open>_is_windows()\<close>): \<open>str.casefold\<close>, \<open>str.lower\<close>,
  whether Pillow could be imported (\<open>Image is not None\<close>), and \<open>datetime.strptime(s, '%Y:%m:%d %H:%M:%S')\<close>, given as the date the parsed value
  formats to under \<open>strftime('%Y%m%d')\<close>, or \<open>None\<close> when \<open>strptime\<close> raises.
\<close>

record platform = host +
  pl_casefold :: "string \<Rightarrow> string"
  pl_lower :: "string \<Rightarrow> string"
  pl_pillow :: bool
  pl_strptime :: "string \<Rightarrow> string option"

definition name_key :: "platform \<Rightarrow> string \<Rightarrow> string" where
  "name_key plat n = (if windows plat then pl_casefold plat n else n)"

text \<open>
  The key of \<open>files.sort(key=lambda p: str(p).casefold() if _is_windows() else str(p))\<close>.
\<close>

definition scan_key :: "platform \<Rightarrow> path \<Rightarrow> string" where
  "scan_key plat p = (if windows plat then pl_casefold plat (str_path p) else str_path p)"

text \<open>
  \<open>_iter_files_tolerant\<close>: \<open>found\<close> and \<open>errs\<close> are the files and the error messages the
  walk (or the directory scan) collected, in the order the operating system yielded
  them; the function sorts the files (Python's sort is stable) and returns both.
\<close>

definition iter_files_tolerant :: "platform \<Rightarrow> path list \<Rightarrow> string list \<Rightarrow> path list \<times> string list" where
  "iter_files_tolerant plat found errs = (sort_key (scan_key plat) found, errs)"

text \<open>Python's \<open>a or b\<close> on optional strings: \<open>None\<close> and the empty string are falsy.\<close>

definition py_or :: "string option \<Rightarrow> string option \<Rightarrow> string option" where
  "py_or a b = (case a of None \<Rightarrow> b | Some s \<Rightarrow> if s = [] then b else a)"

text \<open>\<open>str.strip()\<close> on code points below 256.\<close>

definition is_space :: "char \<Rightarrow> bool" where
  "is_space c = (of_char c \<in> {9, 10, 11, 12, 13, 28, 29, 30, 31, 32, 133, 160 :: nat})"

definition strip :: "string \<Rightarrow> string" where
  "strip s = rev (dropWhile is_space (rev (dropWhile is_space s)))"

text \<open>
  What the metadata libraries give for a file. An EXIF value is a string, a byte string
  (given by the text \<open>decode(errors='ignore')\<close> yields) or a truthy value of another
  type. Opening the image and reading its EXIF block raises, or the image has no
  \<open>getexif\<close>, or the block is a table from tag ids to values. Each video tool raises
  somewhere in its body, is not installed, fails on the file (\<open>ffprobe\<close> returns an error
  code, \<open>createParser\<close> returns nothing), finds no creation date, or finds one. Dates
  stand for the \<open>datetime\<close> values and are given as \<open>strftime('%Y%m%d')\<close> formats them.
\<close>

datatype exif_value = ExifStr string | ExifBytes string | ExifOther

datatype image_reading = ReadRaises | NoGetexif | ExifTags "(nat \<times> exif_value) list"

datatype tool_reading = ToolRaises | ToolMissing | ToolFailed | ToolNoDate | ToolDate string

record media =
  m_image :: image_reading
  m_ffprobe :: tool_reading
  m_hachoir :: tool_reading

text \<open>
  The handling of one EXIF text: a falsy value or one that is blank after \<open>strip\<close>
  moves on to the next tag (\<open>None\<close> here); otherwise the text is parsed, then its first
  19 characters, and if both fail the function returns \<open>exif_missing\<close> at once.
\<close>

definition exif_text :: "platform \<Rightarrow> string \<Rightarrow> (string option \<times> string option) option" where
  "exif_text plat v =
     (if v = [] then None
      else
        (let s = strip v in
         if s = [] then None
         else
           (case pl_strptime plat s of
              Some d \<Rightarrow> Some (Some d, None)
            | None \<Rightarrow>
                (case pl_strptime plat (take 19 s) of
                   Some d \<Rightarrow> Some (Some d, None)
                 | None \<Rightarrow> Some (None, Some ''exif_missing'')))))"

text \<open>\<open>for tag_id in _EXIF_DT_TAG_IDS\<close> and the \<open>return None, 'exif_missing'\<close> after it.\<close>

fun exif_tags_loop ::
  "platform \<Rightarrow> (nat \<times> exif_value) list \<Rightarrow> nat list \<Rightarrow> string option \<times> string option" where
  "exif_tags_loop plat ex [] = (None, Some ''exif_missing'')"
| "exif_tags_loop plat ex (tag_id # ids) =
     (case map_of ex tag_id of
        None \<Rightarrow> exif_tags_loop plat ex ids
      | Some ExifOther \<Rightarrow> exif_tags_loop plat ex ids
      | Some (ExifStr v) \<Rightarrow>
          (case exif_text plat v of None \<Rightarrow> exif_tags_loop plat ex ids | Some r \<Rightarrow> r)
      | Some (ExifBytes v) \<Rightarrow>
          (case exif_text plat v of None \<Rightarrow> exif_tags_loop plat ex ids | Some r \<Rightarrow> r))"

definition EXIF_DT_TAG_IDS :: "nat list" where
  "EXIF_DT_TAG_IDS = [36867, 36868, 306]"

text \<open>
  \<open>_read_exif_datetime\<close>: the body of its \<open>try\<close> block, where the library may raise,
  and the function itself, whose \<open>except Exception\<close> turns a raise into
  \<open>exif_unavailable\<close>.
\<close>

definition read_exif_datetime_try ::
  "platform \<Rightarrow> image_reading \<Rightarrow> exn + (string option \<times> string option)" where
  "read_exif_datetime_try plat img =
     (case img of
        ReadRaises \<Rightarrow> Inl OtherError
      | NoGetexif \<Rightarrow> Inr (None, Some ''exif_unavailable'')
      | ExifTags ex \<Rightarrow>
          if ex = [] then Inr (None, Some ''exif_missing'')
          else Inr (exif_tags_loop plat ex EXIF_DT_TAG_IDS))"

definition read_exif_datetime :: "platform \<Rightarrow> image_reading \<Rightarrow> string option \<times> string option" where
  "read_exif_datetime plat img =
     (if \<not> pl_pillow plat then (None, Some ''exif_unavailable'')
      else
        (case read_exif_datetime_try plat img of
           Inl e \<Rightarrow> (None, Some ''exif_unavailable'')
         | Inr r \<Rightarrow> r))"

text \<open>
  \<open>_read_video_datetime_ffprobe\<close> and \<open>_read_video_datetime_hachoir\<close>, each the body
  of its \<open>try\<close> block and the function with its \<open>except Exception\<close>.
\<close>

definition read_video_datetime_ffprobe_try ::
  "tool_reading \<Rightarrow> exn + (string option \<times> string option)" where
  "read_video_datetime_ffprobe_try r =
     (case r of
        ToolRaises \<Rightarrow> Inl OtherError
      | ToolMissing \<Rightarrow> Inr (None, Some ''ffprobe_missing'')
      | ToolFailed \<Rightarrow> Inr (None, Some ''ffprobe_failed'')
      | ToolNoDate \<Rightarrow> Inr (None, Some ''video_meta_missing'')
      | ToolDate d \<Rightarrow> Inr (Some d, None))"

definition read_video_datetime_ffprobe :: "tool_reading \<Rightarrow> string option \<times> string option" where
  "read_video_datetime_ffprobe r =
     (case read_video_datetime_ffprobe_try r of
        Inl e \<Rightarrow> (None, Some ''video_meta_unavailable'')
      | Inr x \<Rightarrow> x)"

definition read_video_datetime_hachoir_try ::
  "tool_reading \<Rightarrow> exn + (string option \<times> string option)" where
  "read_video_datetime_hachoir_try r =
     (case r of
        ToolRaises \<Rightarrow> Inl OtherError
      | ToolMissing \<Rightarrow> Inr (None, Some ''hachoir_missing'')
      | ToolFailed \<Rightarrow> Inr (None, Some ''video_meta_unavailable'')
      | ToolNoDate \<Rightarrow> Inr (None, Some ''video_meta_missing'')
      | ToolDate d \<Rightarrow> Inr (Some d, None))"

definition read_video_datetime_hachoir :: "tool_reading \<Rightarrow> string option \<times> string option" where
  "read_video_datetime_hachoir r =
     (case read_video_datetime_hachoir_try r of
        Inl e \<Rightarrow> (None, Some ''video_meta_unavailable'')
      | Inr x \<Rightarrow> x)"

text \<open>\<open>_read_video_datetime\<close>: \<open>ffprobe\<close> first, then \<open>hachoir\<close>.\<close>

definition read_video_datetime :: "media \<Rightarrow> string option \<times> string option" where
  "read_video_datetime m =
     (case read_video_datetime_ffprobe (m_ffprobe m) of
        (Some dt, note) \<Rightarrow> (Some dt, None)
      | (None, note) \<Rightarrow>
          if note \<in> {Some ''ffprobe_missing'', Some ''ffprobe_failed'',
                      Some ''video_meta_missing'', Some ''video_meta_unavailable''}
          then
            (case read_video_datetime_hachoir (m_hachoir m) of
               (Some dt2, note2) \<Rightarrow> (Some dt2, None)
             | (None, note2) \<Rightarrow> (None, py_or note2 note))
          else (None, note))"

definition VIDEO_META_SUFFIXES :: "string set" where
  "VIDEO_META_SUFFIXES = {''.mp4'', ''.mov'', ''.m4v'', ''.avi'', ''.mkv''}"

text \<open>
  \<open>_get_date_prefix\<close>: the body of its outer \<open>try\<close> block, in which the two \<open>stat\<close>
  calls of the \<open>ctime\<close> and \<open>mtime\<close> branches may raise (the one of the \<open>exif\<close> branch
  has its own \<open>try\<close>), and the function itself, whose \<open>except Exception\<close> returns
  \<open>(None, None)\<close>.
\<close>

definition get_date_prefix_try ::
  "platform \<Rightarrow> (path \<Rightarrow> media) \<Rightarrow> fs \<Rightarrow> path \<Rightarrow> string
     \<Rightarrow> exn + (string option \<times> string option)" where
  "get_date_prefix_try plat med fsa p date_source =
     (if date_source = ''ctime''
      then (case stat_cdate fsa p of Inl e \<Rightarrow> Inl e | Inr d \<Rightarrow> Inr (Some d, None))
      else if date_source = ''exif''
      then
        (case read_exif_datetime plat (m_image (med p)) of
           (Some dt, note_code) \<Rightarrow> Inr (Some dt, None)
         | (None, note_code) \<Rightarrow>
             (case (if pl_lower plat (path_suffix p) \<in> VIDEO_META_SUFFIXES
                    then read_video_datetime (med p) else (None, None)) of
                (Some vdt, v_note) \<Rightarrow> Inr (Some vdt, None)
              | (None, v_note) \<Rightarrow>
                  (let fallback_note = py_or v_note (py_or note_code (Some ''meta_missing''))
                   in case stat_mdate fsa p of
                        Inl e \<Rightarrow> Inr (None, fallback_note)
                      | Inr d \<Rightarrow> Inr (Some d, fallback_note))))
      else (case stat_mdate fsa p of Inl e \<Rightarrow> Inl e | Inr d \<Rightarrow> Inr (Some d, None)))"

definition get_date_prefix ::
  "platform \<Rightarrow> (path \<Rightarrow> media) \<Rightarrow> fs \<Rightarrow> path \<Rightarrow> string \<Rightarrow> string option \<times> string option" where
  "get_date_prefix plat med fsa p date_source =
     (case get_date_prefix_try plat med fsa p date_source of
        Inl e \<Rightarrow> (None, None)
      | Inr r \<Rightarrow> r)"

section \<open>AutoRenamer\_v2.0.py: the plan builder and the run\<close>

text \<open>
  \<open>PlanItem\<close> (its \<open>summary\<close>, a localised display text, is left out) and \<open>RenamePlan\<close>.
\<close>

record plan_item =
  it_path :: path
  it_original_name :: string
  it_base_name :: "string option"
  it_final_name :: "string option"
  it_status :: string
  it_note_code :: "string option"
  it_conflict_index :: nat
  it_error :: "string option"

definition PlanItem :: "path \<Rightarrow> string \<Rightarrow> plan_item" where
  "PlanItem p original =
     \<lparr>it_path = p, it_original_name = original, it_base_name = None, it_final_name = None,
      it_status = ''rename'', it_note_code = None, it_conflict_index = 0, it_error = None\<rparr>"

record rename_plan =
  plan_items :: "plan_item list"
  plan_scanned :: nat
  plan_matched :: nat
  plan_filtered_out :: nat
  plan_scan_errors :: "string list"
  plan_cancelled :: bool

text \<open>
  What the third step of \<open>_build_rename_plan\<close> changes while it loops: the items, the
  two per-directory caches and the list \<open>scan_errors\<close>.
\<close>

record plan_state =
  ps_items :: "plan_item list"
  existing_keys_by_dir :: "string \<rightharpoonup> string set"
  reserved_keys_by_dir :: "string \<rightharpoonup> string set"
  ps_scan_errors :: "string list"

text \<open>
  The body of the loop \<open>for p in kept\<close> for one file. Planning only reads the file
  system. When the directory is not cached yet and its listing raises, the names are
  taken as empty and \<open>f"listdir {parent}: {e}"\<close> is appended to \<open>scan_errors\<close>.
\<close>

definition plan_file ::
  "platform \<Rightarrow> (path \<Rightarrow> media) \<Rightarrow> fs \<Rightarrow> string \<Rightarrow> plan_state \<Rightarrow> path \<Rightarrow> plan_state" where
  "plan_file plat med fsa date_source st p =
     (let original = name_of p;
          parent = parent_of p;
          item = PlanItem p original
      in if has_any_date_prefix original
         then st\<lparr>ps_items := ps_items st @
                   [item\<lparr>it_status := ''skip_prefix'', it_final_name := Some original\<rparr>]\<rparr>
         else
           (case get_date_prefix plat med fsa p date_source of (date_prefix, note_code) \<Rightarrow>
              if date_prefix = None \<or> date_prefix = Some []
              then st\<lparr>ps_items := ps_items st @
                        [item\<lparr>it_status := ''error'', it_final_name := Some original,
                              it_error := Some ''stat() failed''\<rparr>]\<rparr>
              else
                (let base_name = the date_prefix @ ''_'' @ original;
                     item1 = item\<lparr>it_base_name := Some base_name, it_note_code := note_code\<rparr>;
                     existing_keys = (case existing_keys_by_dir st parent of
                                        None \<Rightarrow> name_key plat ` listdir_or_empty plat fsa parent
                                      | Some s \<Rightarrow> s);
                     scan_errors = (case existing_keys_by_dir st parent of
                                      None \<Rightarrow>
                                        (case os_listdir plat fsa parent of
                                           Inl msg \<Rightarrow> ps_scan_errors st
                                                        @ [''listdir '' @ parent @ '': '' @ msg]
                                         | Inr names \<Rightarrow> ps_scan_errors st)
                                    | Some s \<Rightarrow> ps_scan_errors st);
                     reserved_keys = (case reserved_keys_by_dir st parent of
                                        None \<Rightarrow> {} | Some s \<Rightarrow> s);
                     st1 = st\<lparr>existing_keys_by_dir :=
                                (existing_keys_by_dir st)(parent \<mapsto> existing_keys),
                              reserved_keys_by_dir :=
                                (reserved_keys_by_dir st)(parent \<mapsto> reserved_keys),
                              ps_scan_errors := scan_errors\<rparr>
                 in case resolve_conflict_auto_index_v2 (name_key plat) base_name
                           existing_keys reserved_keys 999 of
                      Inl e \<Rightarrow>
                        st1\<lparr>ps_items := ps_items st1 @
                            [item1\<lparr>it_status := ''error'', it_final_name := Some original,
                                   it_error :=
                                     Some (''Too many conflicts when resolving: '' @ base_name)\<rparr>]\<rparr>
                    | Inr (final_name, idx) \<Rightarrow>
                        st1\<lparr>ps_items := ps_items st1 @
                            [item1\<lparr>it_final_name := Some final_name, it_conflict_index := idx,
                                   it_status := ''rename''\<rparr>],
                           reserved_keys_by_dir := (reserved_keys_by_dir st1)
                             (parent \<mapsto> insert (name_key plat final_name) reserved_keys),
                           existing_keys_by_dir := (existing_keys_by_dir st1)
                             (parent \<mapsto> insert (name_key plat final_name)
                                (existing_keys - {name_key plat original}))\<rparr>)))"

text \<open>
  The loop itself. The cancel event is polled at the head of every iteration;
  \<open>cancel idx\<close> says whether it is set when the file at position \<open>idx\<close> is reached.
  The second component tells whether the loop returned early.
\<close>

fun plan_loop ::
  "platform \<Rightarrow> (path \<Rightarrow> media) \<Rightarrow> fs \<Rightarrow> string \<Rightarrow> (nat \<Rightarrow> bool) \<Rightarrow> nat \<Rightarrow> plan_state
     \<Rightarrow> path list \<Rightarrow> plan_state \<times> bool" where
  "plan_loop plat med fsa date_source cancel idx st [] = (st, False)"
| "plan_loop plat med fsa date_source cancel idx st (p # kept) =
     (if cancel idx then (st, True)
      else plan_loop plat med fsa date_source cancel (idx + 1)
             (plan_file plat med fsa date_source st p) kept)"

text \<open>
  The loop of the filter step, which also polls the cancel event; \<open>None\<close> is its early
  return.
\<close>

fun filter_loop ::
  "(string \<Rightarrow> string) \<Rightarrow> filters \<Rightarrow> (nat \<Rightarrow> bool) \<Rightarrow> nat \<Rightarrow> path list \<Rightarrow> path list
     \<Rightarrow> path list option" where
  "filter_loop lw flt cancel idx kept [] = Some kept"
| "filter_loop lw flt cancel idx kept (p # files) =
     (if cancel idx then None
      else filter_loop lw flt cancel (idx + 1)
             (if filtered_out_by lw flt p then kept else kept @ [p]) files)"

text \<open>
  \<open>_build_rename_plan\<close>. \<open>target\<close> is the single file when \<open>is_single_file\<close>; otherwise
  \<open>found\<close> and \<open>errs\<close> are what the scan of the folder collects. \<open>cancel_f\<close> and
  \<open>cancel_p\<close> give the state of the cancel event during the filter loop and the
  planning loop.
\<close>

definition build_rename_plan ::
  "platform \<Rightarrow> (path \<Rightarrow> media) \<Rightarrow> fs \<Rightarrow> (nat \<Rightarrow> bool) \<Rightarrow> (nat \<Rightarrow> bool) \<Rightarrow> filters \<Rightarrow> string
     \<Rightarrow> bool \<Rightarrow> path \<Rightarrow> path list \<Rightarrow> string list \<Rightarrow> rename_plan" where
  "build_rename_plan plat med fsa cancel_f cancel_p flt date_source is_single_file target
       found errs =
     (case (if is_single_file then ([target], []) else iter_files_tolerant plat found errs) of
        (files, scan_errors) \<Rightarrow>
          (let scanned = length files in
           case (if filters_active flt
                 then filter_loop (pl_lower plat) flt cancel_f 0 [] files
                 else Some files) of
             None \<Rightarrow>
               \<lparr>plan_items = [], plan_scanned = scanned, plan_matched = 0,
                plan_filtered_out = scanned, plan_scan_errors = scan_errors,
                plan_cancelled = True\<rparr>
           | Some kept \<Rightarrow>
               (case plan_loop plat med fsa date_source cancel_p 0
                       \<lparr>ps_items = [], existing_keys_by_dir = Map.empty,
                        reserved_keys_by_dir = Map.empty, ps_scan_errors = scan_errors\<rparr>
                       kept of
                  (st, c) \<Rightarrow>
                    \<lparr>plan_items = ps_items st, plan_scanned = scanned,
                     plan_matched = length kept,
                     plan_filtered_out = scanned - length kept,
                     plan_scan_errors = ps_scan_errors st, plan_cancelled = c\<rparr>)))"

text \<open>What the execution loop of \<open>_worker_run\<close> changes.\<close>

record exec_state =
  x_result :: rename_result
  x_ops :: "op list"
  x_fs :: fs

text \<open>The body of the loop \<open>for i, it in enumerate(plan.items, start=1)\<close> for one item.\<close>

definition execute_item :: "'a host_scheme \<Rightarrow> bool \<Rightarrow> exec_state \<Rightarrow> plan_item \<Rightarrow> exec_state" where
  "execute_item env dry_run st it =
     (let src = it_path it; original_name = it_original_name it in
      if it_status it = ''skip_prefix''
      then st\<lparr>x_result := (x_result st)\<lparr>skipped := skipped (x_result st) + 1\<rparr>\<rparr>
      else if it_status it = ''error''
      then st\<lparr>x_result := (x_result st)\<lparr>errors := errors (x_result st) + 1\<rparr>\<rparr>
      else
        (let final_name = (case py_or (it_final_name it) (Some original_name) of
                             None \<Rightarrow> original_name | Some n \<Rightarrow> n);
             st1 = (if it_conflict_index it > 0
                    then st\<lparr>x_result := (x_result st)
                              \<lparr>conflicts := conflicts (x_result st) + 1\<rparr>\<rparr>
                    else st)
         in if dry_run
            then st1\<lparr>x_result := (x_result st1)\<lparr>renamed := renamed (x_result st1) + 1\<rparr>\<rparr>
            else
              (let dst = with_name src final_name in
               case os_rename env (x_fs st1) src dst of
                 Inl e \<Rightarrow> st1\<lparr>x_result := (x_result st1)
                                 \<lparr>errors := errors (x_result st1) + 1\<rparr>\<rparr>
               | Inr fs' \<Rightarrow>
                   st1\<lparr>x_fs := fs',
                       x_ops := x_ops st1 @ [\<lparr>old = src, new = dst\<rparr>],
                       x_result := (x_result st1)
                         \<lparr>renamed := renamed (x_result st1) + 1\<rparr>\<rparr>)))"

fun execute_loop ::
  "'a host_scheme \<Rightarrow> bool \<Rightarrow> (nat \<Rightarrow> bool) \<Rightarrow> nat \<Rightarrow> exec_state \<Rightarrow> plan_item list
     \<Rightarrow> exec_state" where
  "execute_loop env dry_run cancel idx st [] = st"
| "execute_loop env dry_run cancel idx st (it # items) =
     (if cancel idx then st\<lparr>x_result := (x_result st)\<lparr>cancelled := True\<rparr>\<rparr>
      else execute_loop env dry_run cancel (idx + 1) (execute_item env dry_run st it) items)"

text \<open>
  The part of \<open>_worker_run\<close> after the plan is built: the early returns on a cancelled
  or empty plan, then the execution loop.
\<close>

definition execute_plan ::
  "'a host_scheme \<Rightarrow> bool \<Rightarrow> (nat \<Rightarrow> bool) \<Rightarrow> fs \<Rightarrow> rename_plan \<Rightarrow> exec_state" where
  "execute_plan env dry_run cancel fsa plan =
     (let st0 = \<lparr>x_result = RenameResult, x_ops = [], x_fs = fsa\<rparr> in
      if plan_cancelled plan
      then st0\<lparr>x_result := RenameResult\<lparr>cancelled := True\<rparr>\<rparr>
      else if plan_scanned plan = 0 then st0
      else
        (let st1 = st0\<lparr>x_result := RenameResult\<lparr>filtered := plan_filtered_out plan\<rparr>\<rparr> in
         if plan_matched plan = 0 then st1
         else execute_loop env dry_run cancel 1
                (st1\<lparr>x_result := (x_result st1)\<lparr>total := length (plan_items plan)\<rparr>\<rparr>)
                (plan_items plan)))"

text \<open>\<open>_worker_run\<close> of AutoRenamer_v2.0.py: build the plan, then execute it.\<close>

definition worker_run_v2 ::
  "platform \<Rightarrow> (path \<Rightarrow> media) \<Rightarrow> (nat \<Rightarrow> bool) \<Rightarrow> (nat \<Rightarrow> bool) \<Rightarrow> (nat \<Rightarrow> bool) \<Rightarrow> filters
     \<Rightarrow> string \<Rightarrow> bool \<Rightarrow> bool \<Rightarrow> path \<Rightarrow> path list \<Rightarrow> string list \<Rightarrow> fs \<Rightarrow> exec_state" where
  "worker_run_v2 plat med cancel_f cancel_p cancel_x flt date_source dry_run is_single_file
       target found errs fsa =
     execute_plan plat dry_run cancel_x fsa
       (build_rename_plan plat med fsa cancel_f cancel_p flt date_source is_single_file target
          found errs)"

section \<open>Concrete platforms and files for the instances\<close>

text \<open>
  A POSIX system and a Windows system on which every directory can be listed and
  changed, both without Pillow (ASCII letters are lowered, by \<open>lower\<close> and by
  \<open>casefold\<close>); files without readable metadata; a cancel event that is never set; and
  files that are not locked, with the same date for modification and creation.
\<close>

definition ascii_lower :: "string \<Rightarrow> string" where
  "ascii_lower s =
     map (\<lambda>c. if CHR ''A'' \<le> c \<and> c \<le> CHR ''Z'' then char_of (of_char c + (32 :: nat)) else c) s"

definition posix_host :: host where
  "posix_host = \<lparr>windows = False, denied_dirs = {}, listdir_fails = (\<lambda>d. None),
                 name_max = 255\<rparr>"


definition posix :: platform where
  "posix = \<lparr>windows = False, denied_dirs = {}, listdir_fails = (\<lambda>d. None), name_max = 255,
            pl_casefold = ascii_lower, pl_lower = ascii_lower,
            pl_pillow = False, pl_strptime = (\<lambda>s. None)\<rparr>"

definition windows_nt :: platform where
  "windows_nt = \<lparr>windows = True, denied_dirs = {}, listdir_fails = (\<lambda>d. None),
                 name_max = 255,
                 pl_casefold = ascii_lower, pl_lower = ascii_lower,
                 pl_pillow = False, pl_strptime = (\<lambda>s. None)\<rparr>"

definition no_media :: "path \<Rightarrow> media" where
  "no_media p = \<lparr>m_image = ReadRaises, m_ffprobe = ToolMissing, m_hachoir = ToolMissing\<rparr>"

definition never :: "nat \<Rightarrow> bool" where
  "never i = False"

definition no_filters :: filters where
  "no_filters = \<lparr>exts = {}, inc = [], exc = []\<rparr>"

definition file_of :: "nat \<Rightarrow> string \<Rightarrow> finfo" where
  "file_of i d = \<lparr>ident = i, mdate = Some d, cdate = Some d, locked = False\<rparr>"


section \<open>The early script rename\_files\_by\_date.py\<close>

record script_state =
  sc_renamed :: nat
  sc_skipped :: nat
  sc_fs :: fs

text \<open>
  The body of the loop of \<open>rename_files_by_modification_date\<close> for one file: the date
  is read first, a name that starts with that very date and an underscore is skipped,
  an existing target is skipped, anything that raises is counted as skipped.
\<close>

definition script_file :: "'a host_scheme \<Rightarrow> script_state \<Rightarrow> path \<Rightarrow> script_state" where
  "script_file env st file_path =
     (case stat_mdate (sc_fs st) file_path of
        Inl e \<Rightarrow> st\<lparr>sc_skipped := sc_skipped st + 1\<rparr>
      | Inr date_prefix \<Rightarrow>
          (let original_name = name_of file_path in
           if prefix (date_prefix @ ''_'') original_name
           then st\<lparr>sc_skipped := sc_skipped st + 1\<rparr>
           else
             (let new_name = date_prefix @ ''_'' @ original_name;
                  new_path = Path (parent_of file_path) new_name
              in if exists_path (sc_fs st) new_path
                 then st\<lparr>sc_skipped := sc_skipped st + 1\<rparr>
                 else
                   (case os_rename env (sc_fs st) file_path new_path of
                      Inl e \<Rightarrow> st\<lparr>sc_skipped := sc_skipped st + 1\<rparr>
                    | Inr fs' \<Rightarrow> st\<lparr>sc_fs := fs', sc_renamed := sc_renamed st + 1\<rparr>))))"

text \<open>The loop \<open>for file_path in files\<close> over the files of the folder.\<close>

definition rename_files_by_modification_date ::
  "'a host_scheme \<Rightarrow> fs \<Rightarrow> path list \<Rightarrow> script_state" where
  "rename_files_by_modification_date env fs0 files =
     foldl (script_file env) \<lparr>sc_renamed = 0, sc_skipped = 0, sc_fs = fs0\<rparr> files"

text \<open>A date as \<open>strftime('%Y%m%d')\<close> writes it for a four-digit year: eight digits.\<close>

definition is_ymd :: "string \<Rightarrow> bool" where
  "is_ymd d = (length d = 8 \<and> list_all is_digit d)"

text \<open>
  A directory with \<open>a.txt\<close> and \<open>a_001.txt\<close>, both last modified on 2024-01-01, and an
  already prefixed \<open>20240101_a.txt\<close>.
\<close>

definition three_files :: fs where
  "three_files =
     [Path ''d'' ''a.txt'' \<mapsto> file_of 2 ''20240101'',
      Path ''d'' ''a_001.txt'' \<mapsto> file_of 3 ''20240101'',
      Path ''d'' ''20240101_a.txt'' \<mapsto> file_of 4 ''20231231'']"

section \<open>Comparing a dry run with a real run\<close>


section \<open>The notes of the video readers\<close>

text \<open>The note codes \<open>_read_video_datetime\<close> can return.\<close>

definition VIDEO_NOTES :: "string set" where
  "VIDEO_NOTES = {''ffprobe_missing'', ''ffprobe_failed'', ''hachoir_missing'',
                  ''video_meta_missing'', ''video_meta_unavailable''}"

section \<open>Verified properties\<close>


subsection \<open>Auxiliary facts: searching a range, formatting numbers, splitting names\<close>

lemma find_upt_first:
  assumes "a \<le> i" "i < b" "P i" "\<And>j. a \<le> j \<Longrightarrow> j < i \<Longrightarrow> \<not> P j"
  shows "List.find P [a..<b] = Some i"
proof -
  have "i - a < length [a..<b]" using assms by simp
  moreover have "[a..<b] ! (i - a) = i" using assms by simp
  moreover have "\<And>j. j < i - a \<Longrightarrow> \<not> P ([a..<b] ! j)"
  proof -
    fix j assume j: "j < i - a"
    then have "[a..<b] ! j = a + j" using assms by simp
    moreover have "a \<le> a + j" "a + j < i" using j by auto
    ultimately show "\<not> P ([a..<b] ! j)" using assms(4) by simp
  qed
  ultimately have "i - a < length [a..<b] \<and> P ([a..<b] ! (i - a)) \<and> i = [a..<b] ! (i - a)
      \<and> (\<forall>j<i - a. \<not> P ([a..<b] ! j))"
    using assms(3) by simp
  then show ?thesis
    unfolding find_Some_iff by (rule exI[of _ "i - a"])
qed

lemma find_upt_none:
  assumes "\<And>j. a \<le> j \<Longrightarrow> j < b \<Longrightarrow> \<not> P j"
  shows "List.find P [a..<b] = None"
  using assms by (simp add: find_None_iff)

lemma splitext_join: "fst (splitext p) @ snd (splitext p) = p"
  by (simp add: splitext_def Let_def)

declare str_of_nat.simps [simp del]

lemma str_of_nat_small: "n < 10 \<Longrightarrow> str_of_nat n = [digit_char n]"
  by (subst str_of_nat.simps) simp

lemma str_of_nat_step:
  "10 \<le> n \<Longrightarrow> str_of_nat n = str_of_nat (n div 10) @ [digit_char (n mod 10)]"
  by (subst str_of_nat.simps) simp

lemma fmt03_digits:
  assumes "i < 1000"
  shows "fmt03 i = [digit_char (i div 100), digit_char (i div 10), digit_char i]"
proof -
  consider "i < 10" | "10 \<le> i" "i < 100" | "100 \<le> i" by linarith
  then show ?thesis
  proof cases
    case 1
    then have "str_of_nat i = [digit_char i]" by (rule str_of_nat_small)
    moreover have "i div 100 = 0" "i div 10 = 0" using 1 by auto
    ultimately show ?thesis
      by (simp add: fmt03_def digit_char_def numeral_3_eq_3 numeral_2_eq_2)
  next
    case 2
    then have "i div 10 < 10" by auto
    then have "str_of_nat i = [digit_char (i div 10), digit_char (i mod 10)]"
      using 2 by (simp add: str_of_nat_step str_of_nat_small)
    moreover have "i div 100 = 0" using 2 by auto
    ultimately show ?thesis by (simp add: fmt03_def digit_char_def)
  next
    case 3
    then have a: "10 \<le> i div 10" "i div 10 div 10 < 10" using assms by auto
    have b: "i div 10 div 10 = i div 100" by (simp add: div_mult2_eq)
    have "str_of_nat i = str_of_nat (i div 10) @ [digit_char (i mod 10)]"
      using 3 by (simp add: str_of_nat_step)
    also have "str_of_nat (i div 10)
        = str_of_nat (i div 10 div 10) @ [digit_char (i div 10 mod 10)]"
      using a by (simp add: str_of_nat_step)
    also have "str_of_nat (i div 10 div 10) = [digit_char (i div 100)]"
      using a b by (simp add: str_of_nat_small)
    finally have "str_of_nat i
        = [digit_char (i div 100), digit_char (i div 10 mod 10), digit_char (i mod 10)]"
      by simp
    then show ?thesis by (simp add: fmt03_def digit_char_def)
  qed
qed

lemma splitext_report: "splitext ''report.txt'' = (''report'', ''.txt'')"
  by code_simp

lemma fmt03_1: "fmt03 1 = ''001''"
  by code_simp

lemma fmt03_2: "fmt03 2 = ''002''"
  by code_simp

lemma below_2: "Suc 0 \<le> j \<Longrightarrow> j < 2 \<Longrightarrow> j = Suc 0"
  by auto

lemma fmt03_Suc_0: "fmt03 (Suc 0) = ''001''"
  using fmt03_1 by simp


subsection \<open>Facts about the conflict resolvers\<close>

lemma find_rev_upt_last:
  "k < n \<Longrightarrow> P k \<Longrightarrow> (\<And>j. k < j \<Longrightarrow> j < n \<Longrightarrow> \<not> P j) \<Longrightarrow> List.find P (rev [0..<n]) = Some k"
proof (induction n)
  case 0
  then show ?case by simp
next
  case (Suc n)
  show ?case
  proof (cases "k = n")
    case True
    then show ?thesis using Suc.prems by simp
  next
    case False
    then have kn: "k < n" using Suc.prems by simp
    have "\<not> P n" using Suc.prems(3)[of n] kn by simp
    moreover have "List.find P (rev [0..<n]) = Some k"
      using Suc.IH[OF kn Suc.prems(2)] Suc.prems(3) by simp
    ultimately show ?thesis by simp
  qed
qed

lemma rfind_last:
  assumes "c \<notin> set ys"
  shows "rfind c (xs @ c # ys) = int (length xs)"
proof -
  let ?s = "xs @ c # ys"
  have "List.find (\<lambda>i. ?s ! i = c) (rev [0..<length ?s]) = Some (length xs)"
  proof (rule find_rev_upt_last)
    show "length xs < length ?s" by simp
    show "?s ! length xs = c" by simp
    fix j assume j: "length xs < j" "j < length ?s"
    then have "?s ! j = ys ! (j - length xs - 1)" by (auto simp: nth_append nth_Cons')
    moreover have "j - length xs - 1 < length ys" using j by auto
    ultimately show "?s ! j \<noteq> c" using assms nth_mem by metis
  qed
  then show ?thesis by (simp add: rfind_def)
qed

lemma rfind_none: "c \<notin> set s \<Longrightarrow> rfind c s = - 1"
  by (auto simp: rfind_def find_None_iff split: option.splits)

lemma rfind_props:
  assumes "rfind c s = int k"
  shows "k < length s \<and> s ! k = c"
proof -
  from assms obtain i where f: "List.find (\<lambda>i. s ! i = c) (rev [0..<length s]) = Some i"
    and ik: "int i = int k"
    by (auto simp: rfind_def split: option.splits)
  from f obtain j where "j < length (rev [0..<length s])"
     "s ! (rev [0..<length s] ! j) = c" "i = rev [0..<length s] ! j"
    unfolding find_Some_iff by blast
  then have "i \<in> set (rev [0..<length s])" "s ! i = c"
    using nth_mem[of j "rev [0..<length s]"] by simp_all
  then show ?thesis using ik by simp
qed

lemma rfind_range: "rfind c s = - 1 \<or> (\<exists>k. rfind c s = int k)"
  by (auto simp: rfind_def split: option.splits)

lemma has_non_dot_iff: "has_non_dot s \<longleftrightarrow> (\<exists>x \<in> set s. x \<noteq> CHR ''.'')"
  by (induction s) auto

lemma splitext_ext:
  assumes "CHR ''.'' \<notin> set ext" "CHR ''/'' \<notin> set ext"
      and "stem = pre @ c # rest" "c \<noteq> CHR ''.''" "c \<noteq> CHR ''/''" "CHR ''/'' \<notin> set rest"
  shows "splitext (stem @ ''.'' @ ext) = (stem, ''.'' @ ext)"
proof -
  let ?p = "stem @ ''.'' @ ext"
  have dot: "rfind CHR ''.'' ?p = int (length stem)"
    using rfind_last[OF assms(1), of stem] by simp
  have tail: "CHR ''/'' \<notin> set (c # rest @ ''.'' @ ext)" using assms by auto
  have sep: "rfind CHR ''/'' ?p = - 1 \<or> (\<exists>k. rfind CHR ''/'' ?p = int k \<and> k < length pre)"
  proof (rule disjE[OF rfind_range[of "CHR ''/''" ?p]])
    assume "rfind CHR ''/'' ?p = - 1" then show ?thesis by simp
  next
    assume "\<exists>k. rfind CHR ''/'' ?p = int k"
    then obtain k where k: "rfind CHR ''/'' ?p = int k" by blast
    from rfind_props[OF k] have kl: "k < length ?p" "?p ! k = CHR ''/''" by simp_all
    have "k < length pre"
    proof (rule ccontr)
      assume "\<not> k < length pre"
      then have ge: "length pre \<le> k" by simp
      have e: "?p = pre @ (c # rest @ ''.'' @ ext)" using assms(3) by simp
      have "?p ! k = (c # rest @ ''.'' @ ext) ! (k - length pre)"
        unfolding e using ge by (simp add: nth_append)
      moreover have "k - length pre < length (c # rest @ ''.'' @ ext)"
        using kl(1) ge assms(3) by simp
      ultimately have "?p ! k \<in> set (c # rest @ ''.'' @ ext)" using nth_mem by metis
      then show False using kl(2) tail by simp
    qed
    then show ?thesis using k by blast
  qed
  then obtain m where m: "nat (rfind CHR ''/'' ?p + 1) = m" "m \<le> length pre"
      "rfind CHR ''/'' ?p < int (length stem)"
    using assms(3) by auto
  have "take (length stem - m) (drop m ?p) = drop m stem"
    by (simp add: drop_take[symmetric])
  also have "\<dots> = drop m pre @ c # rest" using m(2) assms(3) by simp
  finally have e: "take (length stem - m) (drop m ?p) = drop m pre @ c # rest" .
  have "has_non_dot (take (length stem - m) (drop m ?p))"
    unfolding e using assms(4) by (simp add: has_non_dot_iff)
  then show ?thesis using dot m by (simp add: splitext_def Let_def)
qed

lemma splitext_no_dot: "CHR ''.'' \<notin> set p \<Longrightarrow> splitext p = (p, [])"
  using rfind_range[of "CHR ''/''" p] by (auto simp: splitext_def Let_def rfind_none)

lemma three_digits_fmt03:
  assumes "i < 1000"
  shows "fmt03 i = three_digits i"
proof -
  have "i div 100 < 10" using assms by simp
  then show ?thesis using fmt03_digits[OF assms] by (simp add: digit_char_def)
qed


lemma resolve_v2_exhausted:
  assumes "key_func b \<in> E \<union> R"
      and "\<And>i. 1 \<le> i \<Longrightarrow> i \<le> n \<Longrightarrow>
             key_func (fst (splitext b) @ ''_'' @ fmt03 i @ snd (splitext b)) \<in> E \<union> R"
  shows "resolve_conflict_auto_index_v2 key_func b E R n = Inl RuntimeError"
proof -
  have "List.find (\<lambda>i. key_func (cand (fst (splitext b)) i (snd (splitext b))) \<notin> E
            \<and> key_func (cand (fst (splitext b)) i (snd (splitext b))) \<notin> R) [1..<n + 1] = None"
    using assms(2) by (intro find_upt_none) (auto simp: cand_def)
  then show ?thesis using assms(1)
    by (auto simp: resolve_conflict_auto_index_v2_def split: prod.splits)
qed

lemma resolve_v2_id:
  "resolve_conflict_auto_index_v2 (\<lambda>n. n) b E R n = resolve_conflict_auto_index b E R n"
  by (simp add: resolve_conflict_auto_index_v2_def resolve_conflict_auto_index_def)

lemma resolve_exhausted:
  assumes "b \<in> E \<union> R"
      and "\<And>i. 1 \<le> i \<Longrightarrow> i \<le> n \<Longrightarrow>
             fst (splitext b) @ ''_'' @ fmt03 i @ snd (splitext b) \<in> E \<union> R"
  shows "resolve_conflict_auto_index b E R n = Inl RuntimeError"
  using resolve_v2_exhausted[of "\<lambda>n. n" b E R n] assms by (simp add: resolve_v2_id)


lemma resolve_v2_first:
  assumes "key_func b \<in> E \<union> R" "1 \<le> i" "i \<le> n"
      and "key_func (fst (splitext b) @ ''_'' @ fmt03 i @ snd (splitext b)) \<notin> E \<union> R"
      and "\<And>j. 1 \<le> j \<Longrightarrow> j < i \<Longrightarrow>
             key_func (fst (splitext b) @ ''_'' @ fmt03 j @ snd (splitext b)) \<in> E \<union> R"
  shows "resolve_conflict_auto_index_v2 key_func b E R n
           = Inr (fst (splitext b) @ ''_'' @ fmt03 i @ snd (splitext b), i)"
proof -
  let ?c = "\<lambda>j. key_func (cand (fst (splitext b)) j (snd (splitext b)))"
  have "List.find (\<lambda>j. ?c j \<notin> E \<and> ?c j \<notin> R) [1..<n + 1] = Some i"
    using assms by (intro find_upt_first) (auto simp: cand_def)
  then show ?thesis using assms(1)
    by (auto simp: resolve_conflict_auto_index_v2_def cand_def simp del: upt_Suc split: prod.splits)
qed

lemma resolve_first:
  assumes "b \<in> E \<union> R" "1 \<le> i" "i \<le> n"
      and "fst (splitext b) @ ''_'' @ fmt03 i @ snd (splitext b) \<notin> E \<union> R"
      and "\<And>j. 1 \<le> j \<Longrightarrow> j < i \<Longrightarrow>
             fst (splitext b) @ ''_'' @ fmt03 j @ snd (splitext b) \<in> E \<union> R"
  shows "resolve_conflict_auto_index b E R n
           = Inr (fst (splitext b) @ ''_'' @ fmt03 i @ snd (splitext b), i)"
  using resolve_v2_first[of "\<lambda>n. n" b E R i n] assms by (simp add: resolve_v2_id)

lemma find_upt_Some:
  assumes "List.find P [a..<b] = Some i"
  shows "a \<le> i \<and> i < b \<and> P i \<and> (\<forall>j. a \<le> j \<and> j < i \<longrightarrow> \<not> P j)"
proof -
  from assms obtain k where k: "k < length [a..<b]" "P ([a..<b] ! k)" "i = [a..<b] ! k"
      "\<forall>j<k. \<not> P ([a..<b] ! j)"
    unfolding find_Some_iff by blast
  have i: "i = a + k" "k < b - a" using k(1,3) by simp_all
  have "\<forall>j. a \<le> j \<and> j < i \<longrightarrow> \<not> P j"
  proof (intro allI impI)
    fix j assume j: "a \<le> j \<and> j < i"
    then have "j - a < k" using i by auto
    then have "\<not> P ([a..<b] ! (j - a))" using k(4) by blast
    moreover have "a + (j - a) < b" using j i by arith
    then have "[a..<b] ! (j - a) = a + (j - a)" by (rule nth_upt)
    then have "[a..<b] ! (j - a) = j" using j by simp
    ultimately show "\<not> P j" by simp
  qed
  then show ?thesis using k(2) i by simp
qed

lemma resolve_result:
  assumes "resolve_conflict_auto_index b E R n = Inr (name, k)"
  shows "name \<notin> E \<union> R \<and> k \<le> n
         \<and> (k = 0 \<longrightarrow> name = b)
         \<and> (0 < k \<longrightarrow> b \<in> E \<union> R
               \<and> name = fst (splitext b) @ ''_'' @ fmt03 k @ snd (splitext b)
               \<and> (\<forall>j. 1 \<le> j \<and> j < k \<longrightarrow>
                     fst (splitext b) @ ''_'' @ fmt03 j @ snd (splitext b) \<in> E \<union> R))"
proof (cases "b \<notin> E \<and> b \<notin> R")
  case True
  then show ?thesis using assms by (simp add: resolve_conflict_auto_index_def)
next
  case False
  let ?c = "\<lambda>j. cand (fst (splitext b)) j (snd (splitext b))"
  from False assms have f: "List.find (\<lambda>j. ?c j \<notin> E \<and> ?c j \<notin> R) [1..<n + 1] = Some k"
    and nm: "name = ?c k"
    by (auto simp: resolve_conflict_auto_index_def simp del: upt_Suc
             split: prod.splits option.splits)
  from find_upt_Some[OF f] have "1 \<le> k" "k < n + 1" "?c k \<notin> E \<and> ?c k \<notin> R"
      "\<forall>j. 1 \<le> j \<and> j < k \<longrightarrow> \<not> (?c j \<notin> E \<and> ?c j \<notin> R)"
    by blast+
  then show ?thesis using False nm by (auto simp: cand_def)
qed


lemma is_digit_not_dot: "is_digit c \<Longrightarrow> c \<noteq> CHR ''.''"
  by (auto simp: is_digit_def)

lemma prefix_marker_append:
  "is_ymd d \<Longrightarrow> has_any_date_prefix (d @ ''_'' @ n)"
  by (simp add: has_any_date_prefix_def is_ymd_def nth_append)

lemma marker_take:
  assumes "has_any_date_prefix s" "9 \<le> k"
  shows "has_any_date_prefix (take k s @ t)"
  using assms by (auto simp: has_any_date_prefix_def nth_append min_def)

lemma splitext_stem:
  "fst (splitext s) = s \<or> (\<exists>k. k < length s \<and> s ! k = CHR ''.'' \<and> fst (splitext s) = take k s)"
proof (cases "fst (splitext s) = s")
  case True
  then show ?thesis by simp
next
  case False
  then have st: "fst (splitext s) = take (nat (rfind CHR ''.'' s)) s"
    by (auto simp: splitext_def Let_def split: if_splits)
  from rfind_range[of "CHR ''.''" s] show ?thesis
  proof
    assume "rfind CHR ''.'' s = - 1"
    then have "fst (splitext s) = s"
      using rfind_range[of "CHR ''/''" s] by (auto simp: splitext_def Let_def)
    then show ?thesis by simp
  next
    assume "\<exists>k. rfind CHR ''.'' s = int k"
    then obtain k where k: "rfind CHR ''.'' s = int k" by blast
    from rfind_props[OF k] st k show ?thesis by auto
  qed
qed

lemma marker_no_early_dot:
  assumes "has_any_date_prefix s" "k < length s" "s ! k = CHR ''.''"
  shows "9 \<le> k"
proof (rule ccontr)
  assume "\<not> 9 \<le> k"
  then have "k < 8 \<or> k = 8" by auto
  then show False
  proof
    assume k: "k < 8"
    have "list_all is_digit (take 8 s)" "9 \<le> length s"
      using assms(1) by (auto simp: has_any_date_prefix_def)
    then have "is_digit (take 8 s ! k)" using k by (simp add: list_all_length)
    then have "is_digit (s ! k)" using k by simp
    then show False using assms(3) is_digit_not_dot by auto
  next
    assume "k = 8"
    then show False using assms by (auto simp: has_any_date_prefix_def)
  qed
qed

lemma marker_cand:
  assumes "has_any_date_prefix b"
  shows "has_any_date_prefix (fst (splitext b) @ ''_'' @ fmt03 i @ snd (splitext b))"
proof -
  from splitext_stem[of b] show ?thesis
  proof
    assume e: "fst (splitext b) = b"
    have "b = take (length b) b" by simp
    moreover have "9 \<le> length b" using assms by (simp add: has_any_date_prefix_def)
    ultimately show ?thesis using marker_take[OF assms, of "length b"] e by simp
  next
    assume "\<exists>k. k < length b \<and> b ! k = CHR ''.'' \<and> fst (splitext b) = take k b"
    then obtain k where k: "k < length b" "b ! k = CHR ''.''" "fst (splitext b) = take k b"
      by blast
    from marker_no_early_dot[OF assms k(1,2)] have "9 \<le> k" .
    then show ?thesis using marker_take[OF assms] k(3) by simp
  qed
qed

lemma resolve_v2_result_marked:
  assumes "has_any_date_prefix b"
      and "resolve_conflict_auto_index_v2 key_func b E R n = Inr (final_name, idx)"
  shows "has_any_date_prefix final_name"
proof (cases "key_func b \<notin> E \<and> key_func b \<notin> R")
  case True
  then show ?thesis using assms by (simp add: resolve_conflict_auto_index_v2_def)
next
  case False
  then obtain i where "final_name = cand (fst (splitext b)) i (snd (splitext b))"
    using assms(2)
    by (auto simp: resolve_conflict_auto_index_v2_def simp del: upt_Suc
             split: prod.splits option.splits)
  then show ?thesis using marker_cand[OF assms(1)] by (simp add: cand_def)
qed



subsection \<open>The contract of the conflict resolver\<close>

text \<open>
  Claim C3. If \<open>base_name\<close> is in neither set, the resolver returns \<open>(base_name, 0)\<close>.
  Otherwise the number goes between stem and extension: for a base name
  \<open>stem.ext\<close> (the extension starts at the last dot, which has a character other than
  a dot before it in the name) the candidates are \<open>stem_001.ext\<close>, ..., \<open>stem_999.ext\<close>,
  for a base name without a dot they are \<open>base_name_001\<close>, ..., \<open>base_name_999\<close>; the
  number is written with three digits. The resolver returns the first candidate, in
  increasing order, that is in neither set, together with its index: if candidate \<open>i\<close>
  is free and every candidate below \<open>i\<close> is taken, the result is candidate \<open>i\<close> and
  \<open>i\<close>; conversely every result with a positive index \<open>k\<close> is candidate \<open>k\<close>, free, with
  every candidate below it taken, and a result with index 0 is the base name itself.
  When the base name and all 999 candidates are taken, it raises. Stem and extension
  put together give \<open>base_name\<close> back. With \<open>report.txt\<close> and \<open>report_001.txt\<close> present
  the base name \<open>report.txt\<close> resolves to \<open>report_002.txt\<close> with index 2.
\<close>

theorem resolve_conflict_contract:
  "(base_name \<notin> existing_names \<and> base_name \<notin> reserved_names \<longrightarrow>
      resolve_conflict_auto_index base_name existing_names reserved_names 999
        = Inr (base_name, 0))
   \<and> ((base_name \<in> existing_names \<or> base_name \<in> reserved_names) \<and> 1 \<le> i \<and> i \<le> 999
       \<and> base_name = stem @ ''.'' @ ext
       \<and> CHR ''.'' \<notin> set ext \<and> CHR ''/'' \<notin> set ext
       \<and> stem = pre @ c # rest \<and> c \<noteq> CHR ''.'' \<and> c \<noteq> CHR ''/'' \<and> CHR ''/'' \<notin> set rest
       \<and> stem @ ''_'' @ three_digits i @ ''.'' @ ext \<notin> existing_names \<union> reserved_names
       \<and> (\<forall>j. 1 \<le> j \<and> j < i \<longrightarrow>
             stem @ ''_'' @ three_digits j @ ''.'' @ ext \<in> existing_names \<union> reserved_names)
      \<longrightarrow> resolve_conflict_auto_index base_name existing_names reserved_names 999
            = Inr (stem @ ''_'' @ three_digits i @ ''.'' @ ext, i))
   \<and> ((base_name \<in> existing_names \<or> base_name \<in> reserved_names) \<and> 1 \<le> i \<and> i \<le> 999
       \<and> CHR ''.'' \<notin> set base_name
       \<and> base_name @ ''_'' @ three_digits i \<notin> existing_names \<union> reserved_names
       \<and> (\<forall>j. 1 \<le> j \<and> j < i \<longrightarrow>
             base_name @ ''_'' @ three_digits j \<in> existing_names \<union> reserved_names)
      \<longrightarrow> resolve_conflict_auto_index base_name existing_names reserved_names 999
            = Inr (base_name @ ''_'' @ three_digits i, i))
   \<and> ((base_name \<in> existing_names \<or> base_name \<in> reserved_names) \<and> 1 \<le> i \<and> i \<le> 999
       \<and> fst (splitext base_name) @ ''_'' @ three_digits i @ snd (splitext base_name)
             \<notin> existing_names \<union> reserved_names
       \<and> (\<forall>j. 1 \<le> j \<and> j < i \<longrightarrow>
             fst (splitext base_name) @ ''_'' @ three_digits j @ snd (splitext base_name)
               \<in> existing_names \<union> reserved_names)
      \<longrightarrow> resolve_conflict_auto_index base_name existing_names reserved_names 999
            = Inr (fst (splitext base_name) @ ''_'' @ three_digits i
                     @ snd (splitext base_name), i))
   \<and> (resolve_conflict_auto_index base_name existing_names reserved_names 999 = Inr (name, k)
      \<longrightarrow> name \<notin> existing_names \<union> reserved_names \<and> k \<le> 999
          \<and> (k = 0 \<longrightarrow> name = base_name)
          \<and> (0 < k \<longrightarrow>
                base_name \<in> existing_names \<union> reserved_names
                \<and> name = fst (splitext base_name) @ ''_'' @ three_digits k
                            @ snd (splitext base_name)
                \<and> (\<forall>j. 1 \<le> j \<and> j < k \<longrightarrow>
                      fst (splitext base_name) @ ''_'' @ three_digits j
                        @ snd (splitext base_name) \<in> existing_names \<union> reserved_names)))
   \<and> ((base_name \<in> existing_names \<or> base_name \<in> reserved_names)
       \<and> (\<forall>j. 1 \<le> j \<and> j \<le> 999 \<longrightarrow>
             fst (splitext base_name) @ ''_'' @ three_digits j @ snd (splitext base_name)
               \<in> existing_names \<union> reserved_names)
      \<longrightarrow> resolve_conflict_auto_index base_name existing_names reserved_names 999
            = Inl RuntimeError)
   \<and> fst (splitext base_name) @ snd (splitext base_name) = base_name
   \<and> resolve_conflict_auto_index ''report.txt'' {''report.txt'', ''report_001.txt''} {} 999
       = Inr (''report_002.txt'', 2)"
proof -
  let ?E = "existing_names \<union> reserved_names"
  let ?res = "resolve_conflict_auto_index base_name existing_names reserved_names 999"
  let ?c = "\<lambda>j. fst (splitext base_name) @ ''_'' @ fmt03 j @ snd (splitext base_name)"
  have d3: "\<And>j. j \<le> 999 \<Longrightarrow> fmt03 j = three_digits j"
    by (rule three_digits_fmt03) simp
  have d3': "\<And>j m. j < m \<Longrightarrow> m \<le> 999 \<Longrightarrow> fmt03 j = three_digits j"
    by (rule three_digits_fmt03) simp
  have first: "\<And>s e. splitext base_name = (s, e) \<Longrightarrow> base_name \<in> ?E \<Longrightarrow> 1 \<le> i \<Longrightarrow> i \<le> 999
      \<Longrightarrow> s @ ''_'' @ three_digits i @ e \<notin> ?E
      \<Longrightarrow> (\<forall>j. 1 \<le> j \<and> j < i \<longrightarrow> s @ ''_'' @ three_digits j @ e \<in> ?E)
      \<Longrightarrow> ?res = Inr (s @ ''_'' @ three_digits i @ e, i)"
  proof -
    fix s e
    assume sp: "splitext base_name = (s, e)" and t: "base_name \<in> ?E" and i: "1 \<le> i" "i \<le> 999"
      and fr: "s @ ''_'' @ three_digits i @ e \<notin> ?E"
      and bl: "\<forall>j. 1 \<le> j \<and> j < i \<longrightarrow> s @ ''_'' @ three_digits j @ e \<in> ?E"
    have "?res = Inr (?c i, i)"
    proof (rule resolve_first)
      show "base_name \<in> ?E" by (rule t)
      show "1 \<le> i" "i \<le> 999" by (rule i)+
      show "?c i \<notin> ?E" using fr sp d3[OF i(2)] by simp
      fix j :: nat assume j: "1 \<le> j" "j < i"
      then have "fmt03 j = three_digits j" using d3'[OF j(2) i(2)] by simp
      then show "?c j \<in> ?E" using bl j sp by simp
    qed
    then show "?res = Inr (s @ ''_'' @ three_digits i @ e, i)"
      using sp d3[OF i(2)] by simp
  qed
  have c1: "base_name \<notin> existing_names \<and> base_name \<notin> reserved_names \<longrightarrow> ?res = Inr (base_name, 0)"
    by (simp add: resolve_conflict_auto_index_def)
  have c2: "(base_name \<in> existing_names \<or> base_name \<in> reserved_names) \<and> 1 \<le> i \<and> i \<le> 999
       \<and> base_name = stem @ ''.'' @ ext
       \<and> CHR ''.'' \<notin> set ext \<and> CHR ''/'' \<notin> set ext
       \<and> stem = pre @ c # rest \<and> c \<noteq> CHR ''.'' \<and> c \<noteq> CHR ''/'' \<and> CHR ''/'' \<notin> set rest
       \<and> stem @ ''_'' @ three_digits i @ ''.'' @ ext \<notin> ?E
       \<and> (\<forall>j. 1 \<le> j \<and> j < i \<longrightarrow> stem @ ''_'' @ three_digits j @ ''.'' @ ext \<in> ?E)
      \<longrightarrow> ?res = Inr (stem @ ''_'' @ three_digits i @ ''.'' @ ext, i)"
  proof (intro impI)
    assume h: "(base_name \<in> existing_names \<or> base_name \<in> reserved_names) \<and> 1 \<le> i \<and> i \<le> 999
       \<and> base_name = stem @ ''.'' @ ext
       \<and> CHR ''.'' \<notin> set ext \<and> CHR ''/'' \<notin> set ext
       \<and> stem = pre @ c # rest \<and> c \<noteq> CHR ''.'' \<and> c \<noteq> CHR ''/'' \<and> CHR ''/'' \<notin> set rest
       \<and> stem @ ''_'' @ three_digits i @ ''.'' @ ext \<notin> ?E
       \<and> (\<forall>j. 1 \<le> j \<and> j < i \<longrightarrow> stem @ ''_'' @ three_digits j @ ''.'' @ ext \<in> ?E)"
    then have sp: "splitext base_name = (stem, ''.'' @ ext)"
      using splitext_ext[of ext stem pre c rest] by simp
    from h have t: "base_name \<in> ?E" and i1: "1 \<le> i" and i2: "i \<le> 999"
      and fr: "stem @ ''_'' @ three_digits i @ ''.'' @ ext \<notin> ?E"
      and bl: "\<forall>j. 1 \<le> j \<and> j < i \<longrightarrow> stem @ ''_'' @ three_digits j @ ''.'' @ ext \<in> ?E"
      by blast+
    show "?res = Inr (stem @ ''_'' @ three_digits i @ ''.'' @ ext, i)"
      by (rule first[OF sp t i1 i2 fr bl])
  qed
  have c3: "(base_name \<in> existing_names \<or> base_name \<in> reserved_names) \<and> 1 \<le> i \<and> i \<le> 999
       \<and> CHR ''.'' \<notin> set base_name
       \<and> base_name @ ''_'' @ three_digits i \<notin> ?E
       \<and> (\<forall>j. 1 \<le> j \<and> j < i \<longrightarrow> base_name @ ''_'' @ three_digits j \<in> ?E)
      \<longrightarrow> ?res = Inr (base_name @ ''_'' @ three_digits i, i)"
  proof (intro impI)
    assume h: "(base_name \<in> existing_names \<or> base_name \<in> reserved_names) \<and> 1 \<le> i \<and> i \<le> 999
       \<and> CHR ''.'' \<notin> set base_name
       \<and> base_name @ ''_'' @ three_digits i \<notin> ?E
       \<and> (\<forall>j. 1 \<le> j \<and> j < i \<longrightarrow> base_name @ ''_'' @ three_digits j \<in> ?E)"
    then have sp: "splitext base_name = (base_name, [])" by (simp add: splitext_no_dot)
    from h have t: "base_name \<in> ?E" and i1: "1 \<le> i" and i2: "i \<le> 999"
      and fr: "base_name @ ''_'' @ three_digits i @ [] \<notin> ?E"
      and bl: "\<forall>j. 1 \<le> j \<and> j < i \<longrightarrow> base_name @ ''_'' @ three_digits j @ [] \<in> ?E"
      by simp_all
    have "?res = Inr (base_name @ ''_'' @ three_digits i @ [], i)"
      by (rule first[OF sp t i1 i2 fr bl])
    then show "?res = Inr (base_name @ ''_'' @ three_digits i, i)" by simp
  qed
  have c4: "(base_name \<in> existing_names \<or> base_name \<in> reserved_names) \<and> 1 \<le> i \<and> i \<le> 999
       \<and> fst (splitext base_name) @ ''_'' @ three_digits i @ snd (splitext base_name) \<notin> ?E
       \<and> (\<forall>j. 1 \<le> j \<and> j < i \<longrightarrow>
             fst (splitext base_name) @ ''_'' @ three_digits j @ snd (splitext base_name) \<in> ?E)
      \<longrightarrow> ?res = Inr (fst (splitext base_name) @ ''_'' @ three_digits i
                     @ snd (splitext base_name), i)"
  proof (intro impI)
    assume h: "(base_name \<in> existing_names \<or> base_name \<in> reserved_names) \<and> 1 \<le> i \<and> i \<le> 999
       \<and> fst (splitext base_name) @ ''_'' @ three_digits i @ snd (splitext base_name) \<notin> ?E
       \<and> (\<forall>j. 1 \<le> j \<and> j < i \<longrightarrow>
             fst (splitext base_name) @ ''_'' @ three_digits j @ snd (splitext base_name) \<in> ?E)"
    have sp: "splitext base_name = (fst (splitext base_name), snd (splitext base_name))"
      by simp
    from h have t: "base_name \<in> ?E" and i1: "1 \<le> i" and i2: "i \<le> 999"
      and fr: "fst (splitext base_name) @ ''_'' @ three_digits i @ snd (splitext base_name) \<notin> ?E"
      and bl: "\<forall>j. 1 \<le> j \<and> j < i \<longrightarrow>
             fst (splitext base_name) @ ''_'' @ three_digits j @ snd (splitext base_name) \<in> ?E"
      by blast+
    show "?res = Inr (fst (splitext base_name) @ ''_'' @ three_digits i
                     @ snd (splitext base_name), i)"
      by (rule first[OF sp t i1 i2 fr bl])
  qed
  have c5: "?res = Inr (name, k)
      \<longrightarrow> name \<notin> ?E \<and> k \<le> 999
          \<and> (k = 0 \<longrightarrow> name = base_name)
          \<and> (0 < k \<longrightarrow>
                base_name \<in> ?E
                \<and> name = fst (splitext base_name) @ ''_'' @ three_digits k
                            @ snd (splitext base_name)
                \<and> (\<forall>j. 1 \<le> j \<and> j < k \<longrightarrow>
                      fst (splitext base_name) @ ''_'' @ three_digits j
                        @ snd (splitext base_name) \<in> ?E))"
  proof (intro impI)
    assume r: "?res = Inr (name, k)"
    note rr = resolve_result[OF r]
    have k: "k \<le> 999" using rr by simp
    have "0 < k \<longrightarrow> name = fst (splitext base_name) @ ''_'' @ three_digits k
                            @ snd (splitext base_name)"
      using rr d3[OF k] by simp
    moreover have "0 < k \<longrightarrow> (\<forall>j. 1 \<le> j \<and> j < k \<longrightarrow>
                      fst (splitext base_name) @ ''_'' @ three_digits j
                        @ snd (splitext base_name) \<in> ?E)"
    proof (intro impI allI)
      fix j assume "0 < k" and j: "1 \<le> j \<and> j < k"
      then have "?c j \<in> ?E" using rr by blast
      moreover have "fmt03 j = three_digits j" using d3'[of j k] j k by simp
      ultimately show "fst (splitext base_name) @ ''_'' @ three_digits j
                        @ snd (splitext base_name) \<in> ?E" by simp
    qed
    ultimately show "name \<notin> ?E \<and> k \<le> 999
          \<and> (k = 0 \<longrightarrow> name = base_name)
          \<and> (0 < k \<longrightarrow>
                base_name \<in> ?E
                \<and> name = fst (splitext base_name) @ ''_'' @ three_digits k
                            @ snd (splitext base_name)
                \<and> (\<forall>j. 1 \<le> j \<and> j < k \<longrightarrow>
                      fst (splitext base_name) @ ''_'' @ three_digits j
                        @ snd (splitext base_name) \<in> ?E))"
      using rr by blast
  qed
  have c6: "(base_name \<in> existing_names \<or> base_name \<in> reserved_names)
       \<and> (\<forall>j. 1 \<le> j \<and> j \<le> 999 \<longrightarrow>
             fst (splitext base_name) @ ''_'' @ three_digits j @ snd (splitext base_name) \<in> ?E)
      \<longrightarrow> ?res = Inl RuntimeError"
  proof (intro impI)
    assume h: "(base_name \<in> existing_names \<or> base_name \<in> reserved_names)
       \<and> (\<forall>j. 1 \<le> j \<and> j \<le> 999 \<longrightarrow>
             fst (splitext base_name) @ ''_'' @ three_digits j @ snd (splitext base_name) \<in> ?E)"
    show "?res = Inl RuntimeError"
    proof (rule resolve_exhausted)
      show "base_name \<in> ?E" using h by blast
      fix j :: nat assume j: "1 \<le> j" "j \<le> 999"
      then show "?c j \<in> ?E" using h d3[OF j(2)] by simp
    qed
  qed
  have c7: "fst (splitext base_name) @ snd (splitext base_name) = base_name"
    by (rule splitext_join)
  have "List.find (\<lambda>j. cand ''report'' j ''.txt'' \<notin> {''report.txt'', ''report_001.txt''}
           \<and> cand ''report'' j ''.txt'' \<notin> {}) [1..<999 + 1] = Some 2"
    by (rule find_upt_first) (auto simp: cand_def fmt03_Suc_0 fmt03_2 dest!: below_2)
  then have c8: "resolve_conflict_auto_index ''report.txt'' {''report.txt'', ''report_001.txt''} {} 999
       = Inr (''report_002.txt'', 2)"
    by (simp add: resolve_conflict_auto_index_def splitext_report cand_def fmt03_2)
  show ?thesis using c1 c2 c3 c4 c5 c6 c7 c8 by blast
qed

theorem resolve_conflict_contract_witness:
  "resolve_conflict_auto_index ''report.txt'' {''report.txt'', ''report_001.txt''} {} 999
     = Inr (''report_002.txt'', 2)
   \<and> resolve_conflict_auto_index ''notes.txt'' {''report.txt''} {} 999 = Inr (''notes.txt'', 0)
   \<and> resolve_conflict_auto_index ''README'' {''README''} {} 999 = Inr (''README_001'', 1)"
proof -
  have a: "resolve_conflict_auto_index ''report.txt'' {''report.txt'', ''report_001.txt''} {} 999
     = Inr (''report'' @ ''_'' @ three_digits 2 @ ''.'' @ ''txt'', 2)"
    using resolve_conflict_contract
      [of "''report.txt''" "{''report.txt'', ''report_001.txt''}" "{}" 2
          "''report''" "''txt''" "[]" "CHR ''r''" "''eport''",
       THEN conjunct2, THEN conjunct1]
    by (auto dest!: below_2)
  have b: "resolve_conflict_auto_index ''notes.txt'' {''report.txt''} {} 999
     = Inr (''notes.txt'', 0)"
    using resolve_conflict_contract [of "''notes.txt''" "{''report.txt''}" "{}", THEN conjunct1]
    by simp
  have c: "resolve_conflict_auto_index ''README'' {''README''} {} 999
     = Inr (''README'' @ ''_'' @ three_digits 1, 1)"
    using resolve_conflict_contract [of "''README''" "{''README''}" "{}" 1,
       THEN conjunct2, THEN conjunct2, THEN conjunct1]
    by simp
  show ?thesis using a b c by simp
qed


subsection \<open>The run loop keeps its operations undoable\<close>



lemma hide_empty [simp]: "hide {} fsa = fsa"
  by (simp add: hide_def)











lemma count_error_keeps [simp]:
  "ops (count_error st) = ops st" "fsys (count_error st) = fsys st"
  "existing_by_dir (count_error st) = existing_by_dir st"
  "reserved_by_dir (count_error st) = reserved_by_dir st"
  "renamed (result (count_error st)) = renamed (result st)"
  by (simp_all add: count_error_def)

lemma simulate_keeps [simp]:
  "ops (simulate d a b st) = ops st" "fsys (simulate d a b st) = fsys st"
  "result (simulate d a b st) = result st"
  by (simp_all add: simulate_def)







subsection \<open>Round-trip undo\<close>









subsection \<open>The cases of an undo operation\<close>

text \<open>
  Claim C7, as amended. For an operation reached by the undo loop (the cancel event not
  set): if its new path does not exist, it is counted as skipped, the error counter and
  the file system stay as they are, and the loop goes on with the remaining operations;
  if the new path exists and the old path exists too, it is counted as skipped and
  nothing is overwritten; otherwise the file is renamed from the new path to the old
  path and counted as restored when the operating system performs the rename, and it
  is counted as an error, with the file system unchanged and the loop going on, when
  the operating system refuses the rename (a directory that may not be changed, a
  locked file, a name that is too long). Without cancellation every operation of the
  batch ends in exactly one of the three counters.
\<close>

theorem undo_operation_cases:
  "(fsa (new operation) = None \<and> \<not> cancel idx \<longrightarrow>
      undo_loop env cancel idx (res, fsa) (operation # rest)
        = undo_loop env cancel (idx + 1) (res\<lparr>u_skipped := u_skipped res + 1\<rparr>, fsa) rest)
   \<and> (fsa (new operation) \<noteq> None \<and> fsa (old operation) \<noteq> None \<and> \<not> cancel idx \<longrightarrow>
      undo_loop env cancel idx (res, fsa) (operation # rest)
        = undo_loop env cancel (idx + 1) (res\<lparr>u_skipped := u_skipped res + 1\<rparr>, fsa) rest)
   \<and> (fsa (new operation) = Some f \<and> fsa (old operation) = None \<and> \<not> cancel idx
        \<and> parent_of (new operation) \<notin> denied_dirs env
        \<and> parent_of (old operation) \<notin> denied_dirs env
        \<and> \<not> locked f \<and> length (name_of (old operation)) \<le> name_max env \<longrightarrow>
      undo_loop env cancel idx (res, fsa) (operation # rest)
        = undo_loop env cancel (idx + 1)
            (res\<lparr>u_restored := u_restored res + 1\<rparr>,
             (fsa(new operation := None))(old operation \<mapsto> f)) rest)
   \<and> (fsa (new operation) = Some f \<and> fsa (old operation) = None \<and> \<not> cancel idx
        \<and> (parent_of (new operation) \<in> denied_dirs env
             \<or> parent_of (old operation) \<in> denied_dirs env
             \<or> locked f \<or> name_max env < length (name_of (old operation))) \<longrightarrow>
      undo_loop env cancel idx (res, fsa) (operation # rest)
        = undo_loop env cancel (idx + 1) (res\<lparr>u_errors := u_errors res + 1\<rparr>, fsa) rest)
   \<and> ((\<forall>i. \<not> cancel i) \<longrightarrow>
        u_restored (fst (undo_loop env cancel idx (res, fsa) rest))
          + u_skipped (fst (undo_loop env cancel idx (res, fsa) rest))
          + u_errors (fst (undo_loop env cancel idx (res, fsa) rest))
        = u_restored res + u_skipped res + u_errors res + length rest)"
proof (intro conjI impI)
  assume "fsa (new operation) = None \<and> \<not> cancel idx"
  then show "undo_loop env cancel idx (res, fsa) (operation # rest)
        = undo_loop env cancel (idx + 1) (res\<lparr>u_skipped := u_skipped res + 1\<rparr>, fsa) rest"
    by (simp add: undo_item_def exists_path_def)
next
  assume "fsa (new operation) \<noteq> None \<and> fsa (old operation) \<noteq> None \<and> \<not> cancel idx"
  then show "undo_loop env cancel idx (res, fsa) (operation # rest)
        = undo_loop env cancel (idx + 1) (res\<lparr>u_skipped := u_skipped res + 1\<rparr>, fsa) rest"
    by (auto simp: undo_item_def exists_path_def Let_def)
next
  assume "fsa (new operation) = Some f \<and> fsa (old operation) = None \<and> \<not> cancel idx
        \<and> parent_of (new operation) \<notin> denied_dirs env
        \<and> parent_of (old operation) \<notin> denied_dirs env
        \<and> \<not> locked f \<and> length (name_of (old operation)) \<le> name_max env"
  then show "undo_loop env cancel idx (res, fsa) (operation # rest)
        = undo_loop env cancel (idx + 1)
            (res\<lparr>u_restored := u_restored res + 1\<rparr>,
             (fsa(new operation := None))(old operation \<mapsto> f)) rest"
    by (auto simp: undo_item_def exists_path_def os_rename_def Let_def)
next
  assume "fsa (new operation) = Some f \<and> fsa (old operation) = None \<and> \<not> cancel idx
        \<and> (parent_of (new operation) \<in> denied_dirs env
             \<or> parent_of (old operation) \<in> denied_dirs env
             \<or> locked f \<or> name_max env < length (name_of (old operation)))"
  then show "undo_loop env cancel idx (res, fsa) (operation # rest)
        = undo_loop env cancel (idx + 1) (res\<lparr>u_errors := u_errors res + 1\<rparr>, fsa) rest"
    by (auto simp: undo_item_def exists_path_def os_rename_def Let_def)
next
  assume nc: "\<forall>i. \<not> cancel i"
  have step: "\<And>s operation. u_restored (fst (undo_item env s operation))
          + u_skipped (fst (undo_item env s operation)) + u_errors (fst (undo_item env s operation))
        = u_restored (fst s) + u_skipped (fst s) + u_errors (fst s) + 1"
    by (auto simp: undo_item_def Let_def split: prod.splits sum.splits)
  have "\<And>idx s. u_restored (fst (undo_loop env cancel idx s rest))
          + u_skipped (fst (undo_loop env cancel idx s rest))
          + u_errors (fst (undo_loop env cancel idx s rest))
        = u_restored (fst s) + u_skipped (fst s) + u_errors (fst s) + length rest"
  proof (induction rest)
    case Nil
    then show ?case by simp
  next
    case (Cons a rest)
    show ?case using nc Cons[of "idx + 1" "undo_item env s a"] step[of s a] by simp
  qed
  from this[of idx "(res, fsa)"]
  show "u_restored (fst (undo_loop env cancel idx (res, fsa) rest))
          + u_skipped (fst (undo_loop env cancel idx (res, fsa) rest))
          + u_errors (fst (undo_loop env cancel idx (res, fsa) rest))
        = u_restored res + u_skipped res + u_errors res + length rest" by simp
qed

theorem undo_operation_cases_witness:
  "undo_loop windows_nt (\<lambda>_. False) 1
     (UndoResult,
      [Path ''d'' ''20240101_b.txt'' \<mapsto> file_of 2 ''20240101'',
       Path ''d'' ''b.txt'' \<mapsto> file_of 9 ''20240202'',
       Path ''d'' ''20240101_c.txt'' \<mapsto> file_of 3 ''20240101'',
       Path ''d'' ''20240101_e.txt'' \<mapsto> (file_of 4 ''20240101'')\<lparr>locked := True\<rparr>])
     [\<lparr>old = Path ''d'' ''a.txt'', new = Path ''d'' ''20240101_a.txt''\<rparr>,
      \<lparr>old = Path ''d'' ''b.txt'', new = Path ''d'' ''20240101_b.txt''\<rparr>,
      \<lparr>old = Path ''d'' ''c.txt'', new = Path ''d'' ''20240101_c.txt''\<rparr>,
      \<lparr>old = Path ''d'' ''e.txt'', new = Path ''d'' ''20240101_e.txt''\<rparr>]
   = (\<lparr>u_restored = 1, u_skipped = 2, u_errors = 1, u_total = 0, u_cancelled = False\<rparr>,
      [Path ''d'' ''20240101_b.txt'' \<mapsto> file_of 2 ''20240101'',
       Path ''d'' ''b.txt'' \<mapsto> file_of 9 ''20240202'',
       Path ''d'' ''c.txt'' \<mapsto> file_of 3 ''20240101'',
       Path ''d'' ''20240101_e.txt'' \<mapsto> (file_of 4 ''20240101'')\<lparr>locked := True\<rparr>])"
proof -
  let ?fa = "file_of 2 ''20240101''"
  let ?fb = "file_of 9 ''20240202''"
  let ?fc = "file_of 3 ''20240101''"
  let ?fe = "(file_of 4 ''20240101'')\<lparr>locked := True\<rparr>"
  let ?fs = "[Path ''d'' ''20240101_b.txt'' \<mapsto> ?fa, Path ''d'' ''b.txt'' \<mapsto> ?fb,
       Path ''d'' ''20240101_c.txt'' \<mapsto> ?fc, Path ''d'' ''20240101_e.txt'' \<mapsto> ?fe]"
  let ?o1 = "\<lparr>old = Path ''d'' ''a.txt'', new = Path ''d'' ''20240101_a.txt''\<rparr>"
  let ?o2 = "\<lparr>old = Path ''d'' ''b.txt'', new = Path ''d'' ''20240101_b.txt''\<rparr>"
  let ?o3 = "\<lparr>old = Path ''d'' ''c.txt'', new = Path ''d'' ''20240101_c.txt''\<rparr>"
  let ?o4 = "\<lparr>old = Path ''d'' ''e.txt'', new = Path ''d'' ''20240101_e.txt''\<rparr>"
  let ?r1 = "UndoResult\<lparr>u_skipped := u_skipped UndoResult + 1\<rparr>"
  let ?r2 = "?r1\<lparr>u_skipped := u_skipped ?r1 + 1\<rparr>"
  let ?r3 = "?r2\<lparr>u_restored := u_restored ?r2 + 1\<rparr>"
  let ?fs3 = "(?fs(new ?o3 := None))(old ?o3 \<mapsto> ?fc)"
  have s1: "undo_loop windows_nt (\<lambda>_. False) 1 (UndoResult, ?fs) (?o1 # [?o2, ?o3, ?o4])
      = undo_loop windows_nt (\<lambda>_. False) (1 + 1) (?r1, ?fs) [?o2, ?o3, ?o4]"
    using undo_operation_cases[where fsa = ?fs and operation = ?o1 and cancel = "\<lambda>_. False"
          and idx = 1 and env = windows_nt and res = UndoResult and rest = "[?o2, ?o3, ?o4]",
        THEN conjunct1]
    by simp
  have s2: "undo_loop windows_nt (\<lambda>_. False) (1 + 1) (?r1, ?fs) (?o2 # [?o3, ?o4])
      = undo_loop windows_nt (\<lambda>_. False) (1 + 1 + 1) (?r2, ?fs) [?o3, ?o4]"
    using undo_operation_cases[where fsa = ?fs and operation = ?o2 and cancel = "\<lambda>_. False"
          and idx = "1 + 1" and env = windows_nt and res = ?r1 and rest = "[?o3, ?o4]",
        THEN conjunct2, THEN conjunct1]
    by simp
  have s3: "undo_loop windows_nt (\<lambda>_. False) (1 + 1 + 1) (?r2, ?fs) (?o3 # [?o4])
      = undo_loop windows_nt (\<lambda>_. False) (1 + 1 + 1 + 1) (?r3, ?fs3) [?o4]"
    using undo_operation_cases[where fsa = ?fs and operation = ?o3 and cancel = "\<lambda>_. False"
          and idx = "1 + 1 + 1" and env = windows_nt and res = ?r2 and rest = "[?o4]"
          and f = ?fc,
        THEN conjunct2, THEN conjunct2, THEN conjunct1]
    by (simp add: windows_nt_def file_of_def)
  have s4: "undo_loop windows_nt (\<lambda>_. False) (1 + 1 + 1 + 1) (?r3, ?fs3) (?o4 # [])
      = undo_loop windows_nt (\<lambda>_. False) (1 + 1 + 1 + 1 + 1)
          (?r3\<lparr>u_errors := u_errors ?r3 + 1\<rparr>, ?fs3) []"
    using undo_operation_cases[where fsa = ?fs3 and operation = ?o4 and cancel = "\<lambda>_. False"
          and idx = "1 + 1 + 1 + 1" and env = windows_nt and res = ?r3 and rest = "[]"
          and f = ?fe,
        THEN conjunct2, THEN conjunct2, THEN conjunct2, THEN conjunct1]
    by (simp add: file_of_def)
  show ?thesis
    unfolding s1 s2 s3 s4 by (simp add: UndoResult_def fun_eq_iff)
qed

text \<open>
  The claim as first stated counts every operation whose new path exists and whose old
  path is free as restored. The rename can be refused: here the renamed file is locked,
  the operation is counted as an error and the file keeps its new name.
\<close>

theorem undo_operation_cases_counterexample:
  "[Path ''d'' ''20240101_e.txt'' \<mapsto> (file_of 4 ''20240101'')\<lparr>locked := True\<rparr>]
       (Path ''d'' ''20240101_e.txt'') \<noteq> None
   \<and> [Path ''d'' ''20240101_e.txt'' \<mapsto> (file_of 4 ''20240101'')\<lparr>locked := True\<rparr>]
       (Path ''d'' ''e.txt'') = None
   \<and> undo_loop windows_nt never 1
       (UndoResult,
        [Path ''d'' ''20240101_e.txt'' \<mapsto> (file_of 4 ''20240101'')\<lparr>locked := True\<rparr>])
       [\<lparr>old = Path ''d'' ''e.txt'', new = Path ''d'' ''20240101_e.txt''\<rparr>]
     = (\<lparr>u_restored = 0, u_skipped = 0, u_errors = 1, u_total = 0, u_cancelled = False\<rparr>,
        [Path ''d'' ''20240101_e.txt'' \<mapsto> (file_of 4 ''20240101'')\<lparr>locked := True\<rparr>])"
  by (simp add: undo_item_def exists_path_def os_rename_def Let_def UndoResult_def file_of_def
        never_def)


subsection \<open>An undone entry is never selected again\<close>


lemma find_last_undoable_snoc:
  assumes "h_status e = Some ''done''" "h_ops e \<noteq> []"
  shows "find_last_undoable (hs @ [e]) = Some (length hs, e)"
  using assms by (simp add: find_last_undoable_def)

lemma mark_length [simp]: "length (mark_history_undone eid s hs) = length hs"
  by (induction hs) auto



lemma mark_keeps_ops:
  "i < length hs \<Longrightarrow> h_ops (mark_history_undone eid s hs ! i) = h_ops (hs ! i)"
proof (induction hs arbitrary: i)
  case Nil
  then show ?case by simp
next
  case (Cons a hs)
  then show ?case by (cases i) auto
qed





subsection \<open>Facts about the resolvers and single planning steps\<close>









lemma splitext_a: "splitext ''20240101_a.txt'' = (''20240101_a'', ''.txt'')"
  by code_simp


lemma listing_posix:
  "listdir_or_empty posix fsa d = {n. fsa (Path d n) \<noteq> None}"
  "listdir_or_empty posix_host fsa d = {n. fsa (Path d n) \<noteq> None}"
  "listdir_or_empty windows_nt fsa d = {n. fsa (Path d n) \<noteq> None}"
  "os_listdir posix fsa d = Inr {n. fsa (Path d n) \<noteq> None}"
  "os_listdir windows_nt fsa d = Inr {n. fsa (Path d n) \<noteq> None}"
  by (simp_all add: listdir_or_empty_def os_listdir_def posix_def posix_host_def windows_nt_def)

lemma not_prefixed_a: "\<not> has_any_date_prefix ''a.txt''"
  by (simp add: has_any_date_prefix_def)





subsection \<open>Exhausted candidates\<close>




subsection \<open>Reservation and collisions inside a batch\<close>













subsection \<open>The date-prefix marker\<close>

text \<open>
  In both GUI versions a file whose name carries the marker is skipped before any date
  is read and before the directory's sets are touched, whatever the date source; and
  when dates are written with eight digits, every name the plan builder assigns carries
  the marker, so a file it renamed is skipped by every later plan.
\<close>

lemma skip_prefix_v2:
  "has_any_date_prefix (name_of p) \<Longrightarrow>
   plan_file plat med fsa date_source st p
     = st\<lparr>ps_items := ps_items st @
          [\<lparr>it_path = p, it_original_name = name_of p, it_base_name = None,
            it_final_name = Some (name_of p), it_status = ''skip_prefix'', it_note_code = None,
            it_conflict_index = 0, it_error = None\<rparr>]\<rparr>"
  by (simp add: plan_file_def PlanItem_def Let_def)

lemma skip_prefix_86:
  "has_any_date_prefix (name_of p) \<Longrightarrow>
   run_item env dry_run st p = st\<lparr>result := (result st)\<lparr>skipped := skipped (result st) + 1\<rparr>\<rparr>"
  by (simp add: run_item_def Let_def)

lemma skip_prefix_exec:
  "it_status it = ''skip_prefix'' \<Longrightarrow>
   execute_item env dry_run st it
     = st\<lparr>x_result := (x_result st)\<lparr>skipped := skipped (x_result st) + 1\<rparr>\<rparr>"
  by (simp add: execute_item_def Let_def)











lemma plan_file_items:
  "\<exists>it. ps_items (plan_file plat med fsa ds st p) = ps_items st @ [it] \<and> it_path it = p
        \<and> (it_status it = ''rename'' \<longrightarrow>
             \<not> has_any_date_prefix (name_of p)
             \<and> (\<exists>d note final_name idx E R.
                   get_date_prefix plat med fsa p ds = (Some d, note) \<and> d \<noteq> []
                   \<and> resolve_conflict_auto_index_v2 (name_key plat) (d @ ''_'' @ name_of p) E R 999
                       = Inr (final_name, idx)
                   \<and> it_final_name it = Some final_name))"
proof (cases "has_any_date_prefix (name_of p)")
  case True
  then show ?thesis by (simp add: skip_prefix_v2)
next
  case False
  obtain dp nt where g: "get_date_prefix plat med fsa p ds = (dp, nt)"
    by (cases "get_date_prefix plat med fsa p ds")
  show ?thesis
  proof (cases "dp = None \<or> dp = Some []")
    case True
    then show ?thesis using False g
      by (auto simp: plan_file_def Let_def PlanItem_def)
  next
    case ok: False
    then obtain d where d: "dp = Some d" "d \<noteq> []" by auto
    let ?E = "(case existing_keys_by_dir st (parent_of p) of
                None \<Rightarrow> name_key plat ` listdir_or_empty plat fsa (parent_of p) | Some s \<Rightarrow> s)"
    let ?R = "(case reserved_keys_by_dir st (parent_of p) of None \<Rightarrow> {} | Some s \<Rightarrow> s)"
    show ?thesis
    proof (cases "resolve_conflict_auto_index_v2 (name_key plat) (d @ ''_'' @ name_of p) ?E ?R 999")
      case (Inl e)
      then show ?thesis using False g d
        by (simp add: plan_file_def Let_def PlanItem_def)
    next
      case (Inr r)
      obtain final_name idx where r: "r = (final_name, idx)" by (cases r)
      have "ps_items (plan_file plat med fsa ds st p) = ps_items st @
              [\<lparr>it_path = p, it_original_name = name_of p,
                it_base_name = Some (d @ ''_'' @ name_of p),
                it_final_name = Some final_name, it_status = ''rename'', it_note_code = nt,
                it_conflict_index = idx, it_error = None\<rparr>]"
        using False g d Inr r by (simp add: plan_file_def Let_def PlanItem_def)
      then show ?thesis using False g d Inr r by auto
    qed
  qed
qed

lemma plan_file_marks:
  assumes wf: "\<And>q d. fst (get_date_prefix plat med fsa q ds) = Some d \<Longrightarrow> is_ymd d"
      and old: "\<And>it. it \<in> set (ps_items st) \<Longrightarrow> it_status it = ''rename'' \<Longrightarrow>
                  (\<exists>n. it_final_name it = Some n \<and> has_any_date_prefix n)"
      and it: "it \<in> set (ps_items (plan_file plat med fsa ds st p))" "it_status it = ''rename''"
  shows "\<exists>n. it_final_name it = Some n \<and> has_any_date_prefix n"
proof -
  from plan_file_items[of plat med fsa ds st p] obtain it' where
    a: "ps_items (plan_file plat med fsa ds st p) = ps_items st @ [it']"
    and b: "it_status it' = ''rename'' \<longrightarrow>
             (\<exists>d note final_name idx E R.
                   get_date_prefix plat med fsa p ds = (Some d, note) \<and> d \<noteq> []
                   \<and> resolve_conflict_auto_index_v2 (name_key plat) (d @ ''_'' @ name_of p) E R 999
                       = Inr (final_name, idx)
                   \<and> it_final_name it' = Some final_name)"
    by blast
  from it(1) a have "it \<in> set (ps_items st) \<or> it = it'" by auto
  then show ?thesis
  proof
    assume "it \<in> set (ps_items st)"
    then show ?thesis using old it(2) by blast
  next
    assume e: "it = it'"
    with b it(2) obtain d nt final_name idx E R where
      g: "get_date_prefix plat med fsa p ds = (Some d, nt)"
      and r: "resolve_conflict_auto_index_v2 (name_key plat) (d @ ''_'' @ name_of p) E R 999
                = Inr (final_name, idx)"
      and f: "it_final_name it' = Some final_name"
      by blast
    have "is_ymd d" using wf[of p d] g by simp
    then have "has_any_date_prefix (d @ ''_'' @ name_of p)" by (rule prefix_marker_append)
    from resolve_v2_result_marked[OF this r] f e show ?thesis by simp
  qed
qed

lemma plan_loop_marks:
  assumes wf: "\<And>q d. fst (get_date_prefix plat med fsa q ds) = Some d \<Longrightarrow> is_ymd d"
      and old: "\<And>it. it \<in> set (ps_items st) \<Longrightarrow> it_status it = ''rename'' \<Longrightarrow>
                  (\<exists>n. it_final_name it = Some n \<and> has_any_date_prefix n)"
      and it: "it \<in> set (ps_items (fst (plan_loop plat med fsa ds cancel idx st files)))"
              "it_status it = ''rename''"
  shows "\<exists>n. it_final_name it = Some n \<and> has_any_date_prefix n"
  using old it
proof (induction files arbitrary: idx st)
  case Nil
  then show ?case by simp
next
  case (Cons p files)
  show ?case
  proof (cases "cancel idx")
    case True
    then show ?thesis using Cons.prems by simp
  next
    case False
    have step: "\<And>it. it \<in> set (ps_items (plan_file plat med fsa ds st p)) \<Longrightarrow>
              it_status it = ''rename'' \<Longrightarrow> (\<exists>n. it_final_name it = Some n \<and> has_any_date_prefix n)"
    proof -
      fix it
      assume m: "it \<in> set (ps_items (plan_file plat med fsa ds st p))"
        and r: "it_status it = ''rename''"
      show "\<exists>n. it_final_name it = Some n \<and> has_any_date_prefix n"
      proof (rule plan_file_marks)
        show "\<And>q d. fst (get_date_prefix plat med fsa q ds) = Some d \<Longrightarrow> is_ymd d"
          by (rule wf)
        show "\<And>it. it \<in> set (ps_items st) \<Longrightarrow> it_status it = ''rename'' \<Longrightarrow>
                 \<exists>n. it_final_name it = Some n \<and> has_any_date_prefix n"
          by (rule Cons.prems(1))
        show "it \<in> set (ps_items (plan_file plat med fsa ds st p))" by (rule m)
        show "it_status it = ''rename''" by (rule r)
      qed
    qed
    from Cons.IH[of "plan_file plat med fsa ds st p" "idx + 1", OF step] Cons.prems(2,3) False
    show ?thesis by simp
  qed
qed


lemma marker_files_are_skipped:
  assumes "has_any_date_prefix (name_of p)"
  shows "plan_file plat med fsa date_source st p
           = st\<lparr>ps_items := ps_items st @
                [\<lparr>it_path = p, it_original_name = name_of p, it_base_name = None,
                  it_final_name = Some (name_of p), it_status = ''skip_prefix'',
                  it_note_code = None, it_conflict_index = 0, it_error = None\<rparr>]\<rparr>"
    and "run_item env dry_run rs p
           = rs\<lparr>result := (result rs)\<lparr>skipped := skipped (result rs) + 1\<rparr>\<rparr>"
  using assms by (simp_all add: skip_prefix_v2 skip_prefix_86)

lemma build_rename_plan_items:
  "\<exists>kept se. plan_items (build_rename_plan plat med fsa cancel_f cancel_p flt ds
                  is_single_file target found errs)
     = ps_items (fst (plan_loop plat med fsa ds cancel_p 0
          \<lparr>ps_items = [], existing_keys_by_dir = Map.empty, reserved_keys_by_dir = Map.empty, ps_scan_errors = se\<rparr>
          kept))"
proof -
  obtain files se where f:
    "(if is_single_file then ([target], []) else iter_files_tolerant plat found errs) = (files, se)"
    by (cases "if is_single_file then ([target], []) else iter_files_tolerant plat found errs")
  let ?st0 = "\<lparr>ps_items = [], existing_keys_by_dir = Map.empty,
               reserved_keys_by_dir = Map.empty, ps_scan_errors = se\<rparr>"
  show ?thesis
  proof (cases "if filters_active flt
                 then filter_loop (pl_lower plat) flt cancel_f 0 [] files
                 else Some files")
    case None
    then have "plan_items (build_rename_plan plat med fsa cancel_f cancel_p flt ds
                  is_single_file target found errs) = []"
      using f by (simp add: build_rename_plan_def Let_def)
    then have "plan_items (build_rename_plan plat med fsa cancel_f cancel_p flt ds
                  is_single_file target found errs)
        = ps_items (fst (plan_loop plat med fsa ds cancel_p 0 ?st0 []))" by simp
    then show ?thesis by blast
  next
    case (Some kept)
    then have "plan_items (build_rename_plan plat med fsa cancel_f cancel_p flt ds
                  is_single_file target found errs)
        = ps_items (fst (plan_loop plat med fsa ds cancel_p 0 ?st0 kept))"
      using f by (simp add: build_rename_plan_def Let_def split: prod.splits)
    then show ?thesis by blast
  qed
qed

lemma replanning_skips_renamed:
  assumes wf: "\<And>q d. fst (get_date_prefix plat med fsa q ds) = Some d \<Longrightarrow> is_ymd d"
      and it: "it \<in> set (plan_items (build_rename_plan plat med fsa cancel_f cancel_p flt ds
                  is_single_file target found errs))"
              "it_status it = ''rename''"
  shows "\<exists>n. it_final_name it = Some n \<and> has_any_date_prefix n
           \<and> plan_file plat' med' fsa' ds' st (Path dir n)
               = st\<lparr>ps_items := ps_items st @
                    [\<lparr>it_path = Path dir n, it_original_name = n, it_base_name = None,
                      it_final_name = Some n, it_status = ''skip_prefix'',
                      it_note_code = None, it_conflict_index = 0, it_error = None\<rparr>]\<rparr>"
proof -
  from it(1) build_rename_plan_items[of plat med fsa cancel_f cancel_p flt ds
                  is_single_file target found errs] obtain kept se where
    m: "it \<in> set (ps_items (fst (plan_loop plat med fsa ds cancel_p 0
          \<lparr>ps_items = [], existing_keys_by_dir = Map.empty,
            reserved_keys_by_dir = Map.empty, ps_scan_errors = se\<rparr> kept)))"
    by auto
  let ?st0 = "\<lparr>ps_items = [], existing_keys_by_dir = Map.empty,
               reserved_keys_by_dir = Map.empty, ps_scan_errors = se\<rparr>"
  have "\<exists>n. it_final_name it = Some n \<and> has_any_date_prefix n"
  proof (rule plan_loop_marks)
    show "\<And>q d. fst (get_date_prefix plat med fsa q ds) = Some d \<Longrightarrow> is_ymd d" by (rule wf)
    show "\<And>it. it \<in> set (ps_items ?st0) \<Longrightarrow> it_status it = ''rename'' \<Longrightarrow>
             \<exists>n. it_final_name it = Some n \<and> has_any_date_prefix n" by simp
    show "it \<in> set (ps_items (fst (plan_loop plat med fsa ds cancel_p 0 ?st0 kept)))" by (rule m)
    show "it_status it = ''rename''" by (rule it(2))
  qed
  then obtain n where n: "it_final_name it = Some n" "has_any_date_prefix n" by blast
  then show ?thesis using skip_prefix_v2[of "Path dir n" plat' med' fsa' ds' st] by simp
qed

text \<open>
  Claim C5. A file whose name starts with eight digits and an underscore is to be
  skipped and never prefixed again. The early script compares the name with the file's
  own modification date only: \<open>20240101_report.txt\<close>, last modified on 2024-03-05,
  carries the marker, and the script renames it to \<open>20240305_20240101_report.txt\<close>,
  while the plan builder marks the same file \<open>skip_prefix\<close>.
\<close>

theorem script_prefixes_marked_file_again:
  "has_any_date_prefix ''20240101_report.txt''
   \<and> sc_fs (rename_files_by_modification_date posix_host
        [Path ''d'' ''20240101_report.txt'' \<mapsto> file_of 2 ''20240305'']
        [Path ''d'' ''20240101_report.txt''])
     = [Path ''d'' ''20240305_20240101_report.txt'' \<mapsto> file_of 2 ''20240305'']
   \<and> sc_renamed (rename_files_by_modification_date posix_host
        [Path ''d'' ''20240101_report.txt'' \<mapsto> file_of 2 ''20240305'']
        [Path ''d'' ''20240101_report.txt'']) = 1
   \<and> ps_items (plan_file posix no_media
        [Path ''d'' ''20240101_report.txt'' \<mapsto> file_of 2 ''20240305''] ''mtime''
        \<lparr>ps_items = [], existing_keys_by_dir = Map.empty, reserved_keys_by_dir = Map.empty, ps_scan_errors = []\<rparr>
        (Path ''d'' ''20240101_report.txt''))
     = [\<lparr>it_path = Path ''d'' ''20240101_report.txt'',
         it_original_name = ''20240101_report.txt'', it_base_name = None,
         it_final_name = Some ''20240101_report.txt'', it_status = ''skip_prefix'',
         it_note_code = None, it_conflict_index = 0, it_error = None\<rparr>]"
proof -
  have m: "has_any_date_prefix ''20240101_report.txt''"
    by (simp add: has_any_date_prefix_def is_digit_def)
  have s: "rename_files_by_modification_date posix_host
        [Path ''d'' ''20240101_report.txt'' \<mapsto> file_of 2 ''20240305'']
        [Path ''d'' ''20240101_report.txt'']
      = \<lparr>sc_renamed = 1, sc_skipped = 0,
         sc_fs = [Path ''d'' ''20240305_20240101_report.txt'' \<mapsto> file_of 2 ''20240305'']\<rparr>"
    by (simp add: rename_files_by_modification_date_def script_file_def stat_mdate_def
          file_of_def exists_path_def os_rename_def posix_host_def Let_def fun_eq_iff)
  show ?thesis using m s by (simp add: skip_prefix_v2)
qed


subsection \<open>Scan order and determinism\<close>

text \<open>
  In AutoRenamer_v2.0.py the scan returns the files sorted by their key, and when
  different files have different keys (on POSIX the key is the path itself) the plan
  does not depend on the order in which the operating system yields the files.
\<close>

lemma scan_sorted:
  "sorted (map (scan_key plat) (fst (iter_files_tolerant plat found errs)))"
  by (simp add: iter_files_tolerant_def)

lemma scan_order_independent:
  assumes "mset found = mset found'" "inj_on (scan_key plat) (set found)"
  shows "iter_files_tolerant plat found errs = iter_files_tolerant plat found' errs"
proof -
  have "mset found = mset (sort_key (scan_key plat) found')" using assms(1) by simp
  moreover have "sorted (map (scan_key plat) (sort_key (scan_key plat) found'))" by simp
  ultimately have "sort_key (scan_key plat) found = sort_key (scan_key plat) found'"
    using assms(2) by (intro sort_key_inj_key_eq) simp_all
  then show ?thesis by (simp add: iter_files_tolerant_def)
qed

lemma plan_independent_of_scan_order:
  assumes "mset found = mset found'" "inj_on (scan_key plat) (set found)"
  shows "build_rename_plan plat med fsa cancel_f cancel_p flt ds is_single_file target found errs
       = build_rename_plan plat med fsa cancel_f cancel_p flt ds is_single_file target found' errs"
  using scan_order_independent[OF assms, of errs] by (simp add: build_rename_plan_def)

lemma str_path_inj:
  assumes "CHR ''/'' \<notin> set (name_of p)" "CHR ''/'' \<notin> set (name_of q)" "str_path p = str_path q"
  shows "p = q"
proof -
  have e: "parent_of p @ CHR ''/'' # name_of p = parent_of q @ CHR ''/'' # name_of q"
    using assms(3) by (simp add: str_path_def)
  have slash: "\<And>xs ys n. xs @ CHR ''/'' # ys = n \<Longrightarrow> CHR ''/'' \<in> set n"
    by auto
  have "parent_of p = parent_of q \<and> name_of p = name_of q"
    using e assms(1,2)
    by (auto simp: append_eq_append_conv2 append_eq_Cons_conv Cons_eq_append_conv dest: slash)
  then show ?thesis by (cases p; cases q) simp
qed



lemma run_item_renames:
  assumes "\<not> has_any_date_prefix (name_of p)" "fsys st p = Some f" "mdate f = Some d"
      and "parent_of p \<notin> denied_dirs env" "\<not> locked f" "length final_name \<le> name_max env"
      and "existing_by_dir st (parent_of p) = eo" "reserved_by_dir st (parent_of p) = ro"
      and "E = (case eo of None \<Rightarrow> listdir_or_empty env (fsys st) (parent_of p) | Some s \<Rightarrow> s)"
      and "R = (case ro of None \<Rightarrow> {} | Some s \<Rightarrow> s)"
      and "resolve_conflict_auto_index (d @ ''_'' @ name_of p) E R 999
             = Inr (final_name, idx)"
      and "fsys st (Path (parent_of p) final_name) = None"
  shows "run_item env False st p =
           \<lparr>result = (result st)\<lparr>conflicts := conflicts (result st) + (if idx > 0 then 1 else 0),
                                 renamed := renamed (result st) + 1\<rparr>,
            ops = ops st @ [\<lparr>old = p, new = Path (parent_of p) final_name\<rparr>],
            existing_by_dir = (existing_by_dir st)
              (parent_of p \<mapsto> insert final_name (E - {name_of p})),
            reserved_by_dir = (reserved_by_dir st)(parent_of p \<mapsto> insert final_name R),
            fsys = ((fsys st)(p := None))(Path (parent_of p) final_name \<mapsto> f)\<rparr>"
  using assms
  by (auto simp: run_item_def stat_mdate_def Let_def simulate_def os_rename_def with_name_def)

lemma splitext_a001: "splitext ''20240101_a_001.txt'' = (''20240101_a_001'', ''.txt'')"
  by code_simp

lemma not_prefixed_a001: "\<not> has_any_date_prefix ''a_001.txt''"
  by (simp add: has_any_date_prefix_def is_digit_def)

lemma prefixed_a: "has_any_date_prefix ''20240101_a.txt''"
  by (simp add: has_any_date_prefix_def is_digit_def)

lemma three_files_listing:
  "listdir_or_empty posix_host three_files ''d'' = {''a.txt'', ''a_001.txt'', ''20240101_a.txt''}"
  by (auto simp: listing_posix three_files_def split: if_splits)

text \<open>
  Claim C1. The candidate files are to be sorted before conflict resolution, so that
  the same directory always gets the same final names. The run of
  rename_files_gui_optimized8.6.py takes the files in the order of the enumeration and
  never sorts them: in a directory holding \<open>a.txt\<close>, \<open>a_001.txt\<close> (both of
  2024-01-01) and \<open>20240101_a.txt\<close>, the enumeration that yields \<open>a.txt\<close> first
  renames it to \<open>20240101_a_001.txt\<close>, the enumeration that yields \<open>a_001.txt\<close> first
  renames \<open>a.txt\<close> to \<open>20240101_a_002.txt\<close>.
\<close>

theorem unsorted_run_depends_on_enumeration:
  "ops (worker_run posix_host ascii_lower never no_filters False three_files
          [Path ''d'' ''a.txt'', Path ''d'' ''a_001.txt'', Path ''d'' ''20240101_a.txt''])
     = [\<lparr>old = Path ''d'' ''a.txt'', new = Path ''d'' ''20240101_a_001.txt''\<rparr>,
        \<lparr>old = Path ''d'' ''a_001.txt'', new = Path ''d'' ''20240101_a_001_001.txt''\<rparr>]
   \<and> ops (worker_run posix_host ascii_lower never no_filters False three_files
          [Path ''d'' ''a_001.txt'', Path ''d'' ''a.txt'', Path ''d'' ''20240101_a.txt''])
     = [\<lparr>old = Path ''d'' ''a_001.txt'', new = Path ''d'' ''20240101_a_001.txt''\<rparr>,
        \<lparr>old = Path ''d'' ''a.txt'', new = Path ''d'' ''20240101_a_002.txt''\<rparr>]"
proof -
  let ?pa = "Path ''d'' ''a.txt''"
  let ?pb = "Path ''d'' ''a_001.txt''"
  let ?pp = "Path ''d'' ''20240101_a.txt''"
  let ?fa = "file_of 2 ''20240101''"
  let ?fb = "file_of 3 ''20240101''"
  let ?E = "listdir_or_empty posix_host three_files ''d''"
  let ?st0 = "(init_state three_files)\<lparr>result := (result (init_state three_files))\<lparr>total := 3\<rparr>\<rparr>"
  have E: "?E = {''a.txt'', ''a_001.txt'', ''20240101_a.txt''}" by (rule three_files_listing)
  have s3: "\<And>st. ops (run_item posix_host False st ?pp) = ops st"
    by (simp add: run_item_def prefixed_a)
  have w: "\<And>x y. worker_run posix_host ascii_lower never no_filters False three_files [x, y, ?pp]
          = run_item posix_host False (run_item posix_host False (run_item posix_host False ?st0 x) y) ?pp"
    by (simp add: worker_run_def filters_active_def no_filters_def never_def Let_def numeral_3_eq_3)
  \<comment> \<open>first order: \<open>a.txt\<close> before \<open>a_001.txt\<close>\<close>
  let ?n1 = "''20240101_a_001.txt''"
  have r1: "resolve_conflict_auto_index (''20240101'' @ ''_'' @ name_of ?pa) ?E {} 999 = Inr (?n1, 1)"
    using resolve_first[of "''20240101_a.txt''" ?E "{}" 1 999]
    by (simp add: E splitext_a fmt03_Suc_0 file_of_def)
  note s1 = run_item_renames[where p = "?pa" and st = "?st0" and f = "?fa" and d = "''20240101''"
      and eo = None and ro = None and E = "?E" and R = "{}"
      and final_name = "?n1" and idx = 1 and env = posix_host, OF _ _ _ _ _ _ _ _ _ _ r1]
  have s1': "run_item posix_host False ?st0 ?pa =
           \<lparr>result = (result ?st0)\<lparr>conflicts := conflicts (result ?st0) + (if (1::nat) > 0 then 1 else 0),
                                 renamed := renamed (result ?st0) + 1\<rparr>,
            ops = ops ?st0 @ [\<lparr>old = ?pa, new = Path (parent_of ?pa) ?n1\<rparr>],
            existing_by_dir = (existing_by_dir ?st0)
              (parent_of ?pa \<mapsto> insert ?n1 (?E - {name_of ?pa})),
            reserved_by_dir = (reserved_by_dir ?st0)(parent_of ?pa \<mapsto> insert ?n1 {}),
            fsys = ((fsys ?st0)(?pa := None))(Path (parent_of ?pa) ?n1 \<mapsto> ?fa)\<rparr>"
    by (rule s1) (simp_all add: not_prefixed_a init_state_def three_files_def file_of_def posix_host_def)
  let ?st1 = "\<lparr>result = (result ?st0)\<lparr>conflicts := conflicts (result ?st0) + (if (1::nat) > 0 then 1 else 0),
                                 renamed := renamed (result ?st0) + 1\<rparr>,
            ops = ops ?st0 @ [\<lparr>old = ?pa, new = Path (parent_of ?pa) ?n1\<rparr>],
            existing_by_dir = (existing_by_dir ?st0)
              (parent_of ?pa \<mapsto> insert ?n1 (?E - {name_of ?pa})),
            reserved_by_dir = (reserved_by_dir ?st0)(parent_of ?pa \<mapsto> insert ?n1 {}),
            fsys = ((fsys ?st0)(?pa := None))(Path (parent_of ?pa) ?n1 \<mapsto> ?fa)\<rparr>"
  let ?E1 = "insert ?n1 (?E - {name_of ?pa})"
  let ?n2 = "''20240101_a_001_001.txt''"
  have r2: "resolve_conflict_auto_index (''20240101'' @ ''_'' @ name_of ?pb) ?E1 {?n1} 999 = Inr (?n2, 1)"
    using resolve_first[of "''20240101_a_001.txt''" ?E1 "{?n1}" 1 999]
    by (simp add: E splitext_a001 fmt03_Suc_0 file_of_def)
  note s2 = run_item_renames[where p = "?pb" and st = "?st1" and f = "?fb" and d = "''20240101''"
      and eo = "Some ?E1" and ro = "Some {?n1}" and E = "?E1" and R = "{?n1}"
      and final_name = "?n2" and idx = 1 and env = posix_host,
              OF _ _ _ _ _ _ _ _ _ _ r2]
  have s2': "ops (run_item posix_host False ?st1 ?pb)
              = [\<lparr>old = ?pa, new = Path ''d'' ?n1\<rparr>, \<lparr>old = ?pb, new = Path ''d'' ?n2\<rparr>]"
    by (subst s2) (simp_all add: not_prefixed_a001 init_state_def three_files_def file_of_def posix_host_def)
  have A: "ops (worker_run posix_host ascii_lower never no_filters False three_files [?pa, ?pb, ?pp])
     = [\<lparr>old = ?pa, new = Path ''d'' ?n1\<rparr>, \<lparr>old = ?pb, new = Path ''d'' ?n2\<rparr>]"
    unfolding w s3 s1' by (rule s2')
  \<comment> \<open>second order: \<open>a_001.txt\<close> before \<open>a.txt\<close>\<close>
  have q1: "resolve_conflict_auto_index (''20240101'' @ ''_'' @ name_of ?pb) ?E {} 999 = Inr (?n1, 0)"
    by (simp add: E resolve_conflict_auto_index_def file_of_def)
  note t1 = run_item_renames[where p = "?pb" and st = "?st0" and f = "?fb" and d = "''20240101''"
      and eo = None and ro = None and E = "?E" and R = "{}"
      and final_name = "?n1" and idx = 0 and env = posix_host, OF _ _ _ _ _ _ _ _ _ _ q1]
  let ?su1 = "\<lparr>result = (result ?st0)\<lparr>conflicts := conflicts (result ?st0) + (if (0::nat) > 0 then 1 else 0),
                                 renamed := renamed (result ?st0) + 1\<rparr>,
            ops = ops ?st0 @ [\<lparr>old = ?pb, new = Path (parent_of ?pb) ?n1\<rparr>],
            existing_by_dir = (existing_by_dir ?st0)
              (parent_of ?pb \<mapsto> insert ?n1 (?E - {name_of ?pb})),
            reserved_by_dir = (reserved_by_dir ?st0)(parent_of ?pb \<mapsto> insert ?n1 {}),
            fsys = ((fsys ?st0)(?pb := None))(Path (parent_of ?pb) ?n1 \<mapsto> ?fb)\<rparr>"
  have t1': "run_item posix_host False ?st0 ?pb = ?su1"
    by (rule t1) (simp_all add: not_prefixed_a001 init_state_def three_files_def file_of_def posix_host_def)
  let ?F1 = "insert ?n1 (?E - {name_of ?pb})"
  let ?n3 = "''20240101_a_002.txt''"
  have "resolve_conflict_auto_index ''20240101_a.txt'' ?F1 {?n1} 999
          = Inr (fst (splitext ''20240101_a.txt'') @ ''_'' @ fmt03 2
                   @ snd (splitext ''20240101_a.txt''), 2)"
    by (rule resolve_first)
       (auto simp: E splitext_a fmt03_Suc_0 fmt03_2 dest!: below_2)
  then have q2: "resolve_conflict_auto_index (''20240101'' @ ''_'' @ name_of ?pa) ?F1 {?n1} 999
                   = Inr (?n3, 2)"
    by (simp add: splitext_a fmt03_2 file_of_def)
  note t2 = run_item_renames[where p = "?pa" and st = "?su1" and f = "?fa" and d = "''20240101''"
      and eo = "Some ?F1" and ro = "Some {?n1}" and E = "?F1" and R = "{?n1}"
      and final_name = "?n3" and idx = 2 and env = posix_host,
              OF _ _ _ _ _ _ _ _ _ _ q2]
  have t2': "ops (run_item posix_host False ?su1 ?pa)
              = [\<lparr>old = ?pb, new = Path ''d'' ?n1\<rparr>, \<lparr>old = ?pa, new = Path ''d'' ?n3\<rparr>]"
    by (subst t2) (simp_all add: not_prefixed_a init_state_def three_files_def file_of_def posix_host_def)
  have B: "ops (worker_run posix_host ascii_lower never no_filters False three_files [?pb, ?pa, ?pp])
     = [\<lparr>old = ?pb, new = Path ''d'' ?n1\<rparr>, \<lparr>old = ?pa, new = Path ''d'' ?n3\<rparr>]"
    unfolding w s3 t1' by (rule t2')
  show ?thesis using A B by simp
qed


subsection \<open>Dry runs\<close>













subsection \<open>Capture-time dates and their fallback\<close>

lemma exif_text_cases:
  "exif_text plat v = None \<or> (\<exists>d. exif_text plat v = Some (Some d, None))
   \<or> exif_text plat v = Some (None, Some ''exif_missing'')"
  by (auto simp: exif_text_def Let_def split: option.splits)

lemma exif_tags_loop_cases:
  "(\<exists>d. exif_tags_loop plat ex ids = (Some d, None))
   \<or> exif_tags_loop plat ex ids = (None, Some ''exif_missing'')"
proof (induction ids)
  case Nil
  then show ?case by simp
next
  case (Cons tag_id ids)
  show ?case
  proof (cases "map_of ex tag_id")
    case None
    then show ?thesis using Cons by simp
  next
    case (Some v)
    show ?thesis
    proof (cases v)
      case (ExifStr t)
      then show ?thesis using Some Cons exif_text_cases[of plat t] by auto
    next
      case (ExifBytes t)
      then show ?thesis using Some Cons exif_text_cases[of plat t] by auto
    next
      case ExifOther
      then show ?thesis using Some Cons by simp
    qed
  qed
qed

lemma read_exif_datetime_cases:
  "(\<exists>d. read_exif_datetime plat img = (Some d, None))
   \<or> read_exif_datetime plat img = (None, Some ''exif_missing'')
   \<or> read_exif_datetime plat img = (None, Some ''exif_unavailable'')"
proof (cases img)
  case ReadRaises
  then show ?thesis by (simp add: read_exif_datetime_def read_exif_datetime_try_def)
next
  case NoGetexif
  then show ?thesis by (simp add: read_exif_datetime_def read_exif_datetime_try_def)
next
  case (ExifTags ex)
  then show ?thesis using exif_tags_loop_cases[of plat ex EXIF_DT_TAG_IDS]
    by (auto simp: read_exif_datetime_def read_exif_datetime_try_def)
qed

lemma read_video_datetime_cases:
  "(\<exists>d. read_video_datetime m = (Some d, None))
   \<or> (\<exists>n. n \<in> VIDEO_NOTES \<and> read_video_datetime m = (None, Some n))"
  by (cases "m_ffprobe m"; cases "m_hachoir m")
     (simp_all add: read_video_datetime_def read_video_datetime_ffprobe_def
        read_video_datetime_ffprobe_try_def read_video_datetime_hachoir_def
        read_video_datetime_hachoir_try_def py_or_def VIDEO_NOTES_def)

lemma exif_mode_never_raises:
  "\<exists>r. get_date_prefix_try plat med fsa p ''exif'' = Inr r"
  by (auto simp: get_date_prefix_try_def Let_def split: prod.splits option.splits sum.splits)


lemma exif_no_date_note:
  assumes e: "fst (read_exif_datetime plat (m_image (med p))) = None"
      and v: "fst (if pl_lower plat (path_suffix p) \<in> VIDEO_META_SUFFIXES
                   then read_video_datetime (med p) else (None, None)) = None"
  shows "\<exists>n. (if pl_lower plat (path_suffix p) \<in> VIDEO_META_SUFFIXES
               then read_video_datetime (med p)
               else read_exif_datetime plat (m_image (med p))) = (None, Some n)
           \<and> n \<in> (if pl_lower plat (path_suffix p) \<in> VIDEO_META_SUFFIXES
                    then VIDEO_NOTES else {''exif_missing'', ''exif_unavailable''})
           \<and> n \<noteq> []
           \<and> get_date_prefix plat med fsa p ''exif''
               = (case stat_mdate fsa p of Inl e \<Rightarrow> None | Inr d \<Rightarrow> Some d, Some n)"
proof -
  from read_exif_datetime_cases[of plat "m_image (med p)"] e
  obtain n1 where n1: "read_exif_datetime plat (m_image (med p)) = (None, Some n1)"
    "n1 = ''exif_missing'' \<or> n1 = ''exif_unavailable''"
    by auto
  show ?thesis
  proof (cases "pl_lower plat (path_suffix p) \<in> VIDEO_META_SUFFIXES")
    case False
    then have "get_date_prefix plat med fsa p ''exif''
                 = (case stat_mdate fsa p of Inl e \<Rightarrow> None | Inr d \<Rightarrow> Some d, Some n1)"
      using n1
      by (auto simp: get_date_prefix_def get_date_prefix_try_def py_or_def split: sum.splits)
    then show ?thesis using n1 False by auto
  next
    case True
    with v read_video_datetime_cases[of "med p"]
    obtain n2 where n2: "n2 \<in> VIDEO_NOTES" "read_video_datetime (med p) = (None, Some n2)"
      by auto
    then have ne: "n2 \<noteq> []" by (auto simp: VIDEO_NOTES_def)
    have "get_date_prefix plat med fsa p ''exif''
                 = (case stat_mdate fsa p of Inl e \<Rightarrow> None | Inr d \<Rightarrow> Some d, Some n2)"
      using n1 n2 True ne
      by (auto simp: get_date_prefix_def get_date_prefix_try_def py_or_def split: sum.splits)
    then show ?thesis using n2 ne True by auto
  qed
qed

lemma plan_file_keeps_note:
  assumes "\<not> has_any_date_prefix (name_of p)"
      and "get_date_prefix plat med fsa p ds = (Some d, nt)" "d \<noteq> []"
  shows "\<exists>it. ps_items (plan_file plat med fsa ds st p) = ps_items st @ [it]
           \<and> it_path it = p
           \<and> it_note_code it = nt \<and> it_base_name it = Some (d @ ''_'' @ name_of p)
           \<and> (it_status it = ''rename'' \<or> it_status it = ''error'')"
proof -
  let ?E = "(case existing_keys_by_dir st (parent_of p) of
                None \<Rightarrow> name_key plat ` listdir_or_empty plat fsa (parent_of p) | Some s \<Rightarrow> s)"
  let ?R = "(case reserved_keys_by_dir st (parent_of p) of None \<Rightarrow> {} | Some s \<Rightarrow> s)"
  show ?thesis
  proof (cases "resolve_conflict_auto_index_v2 (name_key plat) (d @ ''_'' @ name_of p) ?E ?R 999")
    case (Inl e)
    then show ?thesis using assms
      by (simp add: plan_file_def Let_def PlanItem_def)
  next
    case (Inr r)
    obtain final_name idx where r: "r = (final_name, idx)" by (cases r)
    show ?thesis using assms Inr r
      by (simp add: plan_file_def Let_def PlanItem_def)
  qed
qed

lemma plan_file_no_date:
  assumes "\<not> has_any_date_prefix (name_of p)"
      and "get_date_prefix plat med fsa p ds = (dp, nt)" "dp = None \<or> dp = Some []"
  shows "plan_file plat med fsa ds st p
           = st\<lparr>ps_items := ps_items st @
                 [\<lparr>it_path = p, it_original_name = name_of p, it_base_name = None,
                   it_final_name = Some (name_of p), it_status = ''error'',
                   it_note_code = None, it_conflict_index = 0,
                   it_error = Some ''stat() failed''\<rparr>]\<rparr>"
  using assms by (auto simp: plan_file_def Let_def PlanItem_def)

lemma exif_a_txt:
  "get_date_prefix posix no_media fsa (Path ''d'' ''a.txt'') ''exif''
     = (case stat_mdate fsa (Path ''d'' ''a.txt'') of Inl e \<Rightarrow> None | Inr d \<Rightarrow> Some d,
        Some ''exif_unavailable'')"
  by (simp add: get_date_prefix_def get_date_prefix_try_def read_exif_datetime_def posix_def
        no_media_def py_or_def path_suffix_def rfind_def ascii_lower_def
        VIDEO_META_SUFFIXES_def split: sum.splits)

text \<open>
  Claim C9, as amended. With the capture-time source, \<open>_get_date_prefix\<close> never
  raises: the body of its \<open>try\<close> block always returns. The EXIF reader returns a date
  with no note, or no date with the note \<open>exif_missing\<close> or \<open>exif_unavailable\<close>; the
  video reader returns a date with no note, or no date with one of its note codes. When
  the metadata give no date, the fallback note is the note of the video reader for a
  file with a video suffix and the note of the EXIF reader for any other file. If then
  the modification time of the file can be read, the resolver returns the modification
  date together with that note, and the plan item of the file carries that note and a
  base name made of the modification date. If the modification time cannot be read
  either (\<open>stat\<close> or the conversion of the time stamp raises), the resolver returns no
  date, and the plan item of the file is an error item with the message
  \<open>stat() failed\<close>, the original name as final name, no base name and no note.
\<close>

theorem capture_time_fallback:
  "(\<exists>r. get_date_prefix_try plat med fsa p ''exif'' = Inr r)
   \<and> ((\<exists>d. read_exif_datetime plat img = (Some d, None))
        \<or> read_exif_datetime plat img = (None, Some ''exif_missing'')
        \<or> read_exif_datetime plat img = (None, Some ''exif_unavailable''))
   \<and> ((\<exists>d. read_video_datetime m = (Some d, None))
        \<or> (\<exists>n. n \<in> VIDEO_NOTES \<and> read_video_datetime m = (None, Some n)))
   \<and> (fst (read_exif_datetime plat (m_image (med p))) = None
        \<and> fst (if pl_lower plat (path_suffix p) \<in> VIDEO_META_SUFFIXES
                then read_video_datetime (med p) else (None, None)) = None
        \<and> \<not> has_any_date_prefix (name_of p)
      \<longrightarrow> (\<exists>n. (if pl_lower plat (path_suffix p) \<in> VIDEO_META_SUFFIXES
                   then read_video_datetime (med p)
                   else read_exif_datetime plat (m_image (med p))) = (None, Some n)
             \<and> n \<in> (if pl_lower plat (path_suffix p) \<in> VIDEO_META_SUFFIXES
                      then VIDEO_NOTES else {''exif_missing'', ''exif_unavailable''})
             \<and> n \<noteq> []
             \<and> (\<forall>d. stat_mdate fsa p = Inr d \<and> d \<noteq> [] \<longrightarrow>
                   get_date_prefix plat med fsa p ''exif'' = (Some d, Some n)
                   \<and> (\<exists>it. ps_items (plan_file plat med fsa ''exif'' st p) = ps_items st @ [it]
                          \<and> it_path it = p
                          \<and> it_note_code it = Some n
                          \<and> it_base_name it = Some (d @ ''_'' @ name_of p)
                          \<and> (it_status it = ''rename'' \<or> it_status it = ''error'')))
             \<and> ((case stat_mdate fsa p of Inl e \<Rightarrow> True | Inr d \<Rightarrow> d = []) \<longrightarrow>
                   get_date_prefix plat med fsa p ''exif''
                     = (case stat_mdate fsa p of Inl e \<Rightarrow> None | Inr d \<Rightarrow> Some d, Some n)
                   \<and> plan_file plat med fsa ''exif'' st p
                     = st\<lparr>ps_items := ps_items st @
                           [\<lparr>it_path = p, it_original_name = name_of p, it_base_name = None,
                             it_final_name = Some (name_of p), it_status = ''error'',
                             it_note_code = None, it_conflict_index = 0,
                             it_error = Some ''stat() failed''\<rparr>]\<rparr>)))"
  (is "?A \<and> ?B \<and> ?C \<and> (?H \<longrightarrow> ?D)")
proof -
  have a: ?A by (rule exif_mode_never_raises)
  have b: ?B by (rule read_exif_datetime_cases)
  have c: ?C by (rule read_video_datetime_cases)
  have d: "?H \<longrightarrow> ?D"
  proof (rule impI)
    assume h: ?H
    have h1: "fst (read_exif_datetime plat (m_image (med p))) = None" using h by simp
    have h2: "fst (if pl_lower plat (path_suffix p) \<in> VIDEO_META_SUFFIXES
                   then read_video_datetime (med p) else (None, None)) = None"
      using h by simp
    from exif_no_date_note[of plat med p fsa, OF h1 h2] obtain n where
      n1: "(if pl_lower plat (path_suffix p) \<in> VIDEO_META_SUFFIXES
            then read_video_datetime (med p)
            else read_exif_datetime plat (m_image (med p))) = (None, Some n)"
      and n2: "n \<in> (if pl_lower plat (path_suffix p) \<in> VIDEO_META_SUFFIXES
                     then VIDEO_NOTES else {''exif_missing'', ''exif_unavailable''})"
      and n3: "n \<noteq> []"
      and n4: "get_date_prefix plat med fsa p ''exif''
               = (case stat_mdate fsa p of Inl e \<Rightarrow> None | Inr d \<Rightarrow> Some d, Some n)"
      by (elim exE conjE)
    have np: "\<not> has_any_date_prefix (name_of p)" using h by simp
    have r: "\<forall>d. stat_mdate fsa p = Inr d \<and> d \<noteq> [] \<longrightarrow>
                   get_date_prefix plat med fsa p ''exif'' = (Some d, Some n)
                   \<and> (\<exists>it. ps_items (plan_file plat med fsa ''exif'' st p) = ps_items st @ [it]
                          \<and> it_path it = p
                          \<and> it_note_code it = Some n
                          \<and> it_base_name it = Some (d @ ''_'' @ name_of p)
                          \<and> (it_status it = ''rename'' \<or> it_status it = ''error''))"
    proof (intro allI impI)
      fix d assume s: "stat_mdate fsa p = Inr d \<and> d \<noteq> []"
      then have g: "get_date_prefix plat med fsa p ''exif'' = (Some d, Some n)"
        using n4 by simp
      have ne: "d \<noteq> []" using s by simp
      show "get_date_prefix plat med fsa p ''exif'' = (Some d, Some n)
            \<and> (\<exists>it. ps_items (plan_file plat med fsa ''exif'' st p) = ps_items st @ [it]
                   \<and> it_path it = p
                   \<and> it_note_code it = Some n
                   \<and> it_base_name it = Some (d @ ''_'' @ name_of p)
                   \<and> (it_status it = ''rename'' \<or> it_status it = ''error''))"
        using g plan_file_keeps_note[OF np g ne, of st] by simp
    qed
    have u: "(case stat_mdate fsa p of Inl e \<Rightarrow> True | Inr d \<Rightarrow> d = []) \<longrightarrow>
                   get_date_prefix plat med fsa p ''exif''
                     = (case stat_mdate fsa p of Inl e \<Rightarrow> None | Inr d \<Rightarrow> Some d, Some n)
                   \<and> plan_file plat med fsa ''exif'' st p
                     = st\<lparr>ps_items := ps_items st @
                           [\<lparr>it_path = p, it_original_name = name_of p, it_base_name = None,
                             it_final_name = Some (name_of p), it_status = ''error'',
                             it_note_code = None, it_conflict_index = 0,
                             it_error = Some ''stat() failed''\<rparr>]\<rparr>"
    proof (intro impI conjI)
      assume s: "case stat_mdate fsa p of Inl e \<Rightarrow> True | Inr d \<Rightarrow> d = []"
      show "get_date_prefix plat med fsa p ''exif''
              = (case stat_mdate fsa p of Inl e \<Rightarrow> None | Inr d \<Rightarrow> Some d, Some n)"
        by (rule n4)
      have e: "(case stat_mdate fsa p of Inl e \<Rightarrow> None | Inr d \<Rightarrow> Some d) = None
               \<or> (case stat_mdate fsa p of Inl e \<Rightarrow> None | Inr d \<Rightarrow> Some d) = Some []"
        using s by (auto split: sum.splits)
      show "plan_file plat med fsa ''exif'' st p
              = st\<lparr>ps_items := ps_items st @
                    [\<lparr>it_path = p, it_original_name = name_of p, it_base_name = None,
                      it_final_name = Some (name_of p), it_status = ''error'',
                      it_note_code = None, it_conflict_index = 0,
                      it_error = Some ''stat() failed''\<rparr>]\<rparr>"
        by (rule plan_file_no_date[OF np n4 e])
    qed
    show ?D using n1 n2 n3 r u by blast
  qed
  show ?thesis using a b c d by blast
qed

theorem capture_time_fallback_witness:
  "get_date_prefix posix no_media [Path ''d'' ''a.txt'' \<mapsto> file_of 2 ''20240101'']
       (Path ''d'' ''a.txt'') ''exif''
     = (Some ''20240101'', Some ''exif_unavailable'')
   \<and> map it_note_code (ps_items (plan_file posix no_media
         [Path ''d'' ''a.txt'' \<mapsto> file_of 2 ''20240101''] ''exif''
         \<lparr>ps_items = [], existing_keys_by_dir = Map.empty, reserved_keys_by_dir = Map.empty,
           ps_scan_errors = []\<rparr>
         (Path ''d'' ''a.txt'')))
     = [Some ''exif_unavailable'']
   \<and> map it_base_name (ps_items (plan_file posix no_media
         [Path ''d'' ''a.txt'' \<mapsto> file_of 2 ''20240101''] ''exif''
         \<lparr>ps_items = [], existing_keys_by_dir = Map.empty, reserved_keys_by_dir = Map.empty,
           ps_scan_errors = []\<rparr>
         (Path ''d'' ''a.txt'')))
     = [Some ''20240101_a.txt'']
   \<and> get_date_prefix posix no_media Map.empty (Path ''d'' ''a.txt'') ''exif''
     = (None, Some ''exif_unavailable'')
   \<and> ps_items (plan_file posix no_media Map.empty ''exif''
         \<lparr>ps_items = [], existing_keys_by_dir = Map.empty, reserved_keys_by_dir = Map.empty,
           ps_scan_errors = []\<rparr>
         (Path ''d'' ''a.txt''))
     = [\<lparr>it_path = Path ''d'' ''a.txt'', it_original_name = ''a.txt'', it_base_name = None,
         it_final_name = Some ''a.txt'', it_status = ''error'', it_note_code = None,
         it_conflict_index = 0, it_error = Some ''stat() failed''\<rparr>]"
proof -
  let ?fs = "[Path ''d'' ''a.txt'' \<mapsto> file_of 2 ''20240101'']"
  let ?p = "Path ''d'' ''a.txt''"
  let ?st0 = "\<lparr>ps_items = [], existing_keys_by_dir = Map.empty,
               reserved_keys_by_dir = Map.empty, ps_scan_errors = []\<rparr>"
  have e: "read_exif_datetime posix (m_image (no_media ?p)) = (None, Some ''exif_unavailable'')"
    by (simp add: read_exif_datetime_def no_media_def posix_def)
  have v: "pl_lower posix (path_suffix ?p) \<notin> VIDEO_META_SUFFIXES"
    by (simp add: posix_def path_suffix_def rfind_def ascii_lower_def VIDEO_META_SUFFIXES_def)
  have s: "stat_mdate ?fs ?p = Inr ''20240101''"
    by (simp add: stat_mdate_def file_of_def)
  have s': "stat_mdate Map.empty ?p = Inl FileNotFoundError"
    by (simp add: stat_mdate_def)
  from capture_time_fallback[of posix no_media ?fs ?p ReadRaises "no_media ?p" ?st0,
         THEN conjunct2, THEN conjunct2, THEN conjunct2] e v not_prefixed_a s
  obtain it where
    "get_date_prefix posix no_media ?fs ?p ''exif'' = (Some ''20240101'', Some ''exif_unavailable'')"
    "ps_items (plan_file posix no_media ?fs ''exif'' ?st0 ?p) = ps_items ?st0 @ [it]"
    "it_note_code it = Some ''exif_unavailable''"
    "it_base_name it = Some (''20240101'' @ ''_'' @ name_of ?p)"
    by auto
  moreover from capture_time_fallback[of posix no_media Map.empty ?p ReadRaises "no_media ?p" ?st0,
         THEN conjunct2, THEN conjunct2, THEN conjunct2] e v not_prefixed_a s'
  have "get_date_prefix posix no_media Map.empty ?p ''exif'' = (None, Some ''exif_unavailable'')
        \<and> plan_file posix no_media Map.empty ''exif'' ?st0 ?p
          = ?st0\<lparr>ps_items := ps_items ?st0 @
              [\<lparr>it_path = ?p, it_original_name = name_of ?p, it_base_name = None,
                it_final_name = Some (name_of ?p), it_status = ''error'',
                it_note_code = None, it_conflict_index = 0,
                it_error = Some ''stat() failed''\<rparr>]\<rparr>"
    by auto
  ultimately show ?thesis by simp
qed

text \<open>
  The claim as first stated promises the fallback and the note in all failure cases.
  When the modification time cannot be read either (here the file exists, and the
  conversion of its time stamp raises), the resolver returns no date, and the plan
  builder marks the item \<open>error\<close> with the message \<open>stat() failed\<close>, without base name
  and without the note.
\<close>

theorem capture_time_fallback_counterexample:
  "read_exif_datetime posix (m_image (no_media (Path ''d'' ''a.txt'')))
     = (None, Some ''exif_unavailable'')
   \<and> stat_mdate [Path ''d'' ''a.txt'' \<mapsto>
                    \<lparr>ident = 2, mdate = None, cdate = None, locked = False\<rparr>]
        (Path ''d'' ''a.txt'') = Inl OSError
   \<and> get_date_prefix posix no_media
        [Path ''d'' ''a.txt'' \<mapsto> \<lparr>ident = 2, mdate = None, cdate = None, locked = False\<rparr>]
        (Path ''d'' ''a.txt'') ''exif''
     = (None, Some ''exif_unavailable'')
   \<and> ps_items (plan_file posix no_media
         [Path ''d'' ''a.txt'' \<mapsto> \<lparr>ident = 2, mdate = None, cdate = None, locked = False\<rparr>]
         ''exif''
         \<lparr>ps_items = [], existing_keys_by_dir = Map.empty, reserved_keys_by_dir = Map.empty,
           ps_scan_errors = []\<rparr>
         (Path ''d'' ''a.txt''))
     = [\<lparr>it_path = Path ''d'' ''a.txt'', it_original_name = ''a.txt'', it_base_name = None,
         it_final_name = Some ''a.txt'', it_status = ''error'', it_note_code = None,
         it_conflict_index = 0, it_error = Some ''stat() failed''\<rparr>]"
proof -
  let ?fs = "[Path ''d'' ''a.txt'' \<mapsto> \<lparr>ident = 2, mdate = None, cdate = None, locked = False\<rparr>]"
  have s: "stat_mdate ?fs (Path ''d'' ''a.txt'') = Inl OSError"
    by (simp add: stat_mdate_def)
  have g: "get_date_prefix posix no_media ?fs (Path ''d'' ''a.txt'') ''exif''
     = (None, Some ''exif_unavailable'')"
    by (simp add: exif_a_txt s)
  have e: "read_exif_datetime posix (m_image (no_media (Path ''d'' ''a.txt'')))
     = (None, Some ''exif_unavailable'')"
    by (simp add: read_exif_datetime_def no_media_def posix_def)
  show ?thesis using g e s not_prefixed_a
    by (simp add: plan_file_def Let_def PlanItem_def)
qed

end
